theory Spec2Isabelle
  imports Main
begin

section \<open>Data model of cc/lto.go\<close>

text \<open>
  The anonymous struct \<^verbatim>\<open>Lto\<close> of \<^verbatim>\<open>LTOProperties\<close>: three \<^verbatim>\<open>*bool\<close> properties
  read from the blueprint file. A nil pointer is \<open>None\<close>.
\<close>

record Lto =
  Never :: "bool option"
  Full :: "bool option"
  Thin :: "bool option"

record LTOProperties =
  Lto :: Lto
  FullEnabled :: bool
  ThinEnabled :: bool
  NoLtoEnabled :: bool
  FullDep :: bool
  ThinDep :: bool
  NoLtoDep :: bool
  Use_clang_lld :: "bool option"
  Whole_program_vtables :: "bool option"

record lto =
  Properties :: LTOProperties

text \<open>A nil pointer dereference of the Go runtime.\<close>

datatype panic = NilPointerDereference

text \<open>\<^verbatim>\<open>proptools.Bool\<close> and the package's \<^verbatim>\<open>Bool\<close>: a nil \<^verbatim>\<open>*bool\<close> reads as false.\<close>

fun Bool :: "bool option \<Rightarrow> bool" where
  "Bool None = False"
| "Bool (Some b) = b"

text \<open>
  The queries the module context answers. The context's own code is outside
  \<^verbatim>\<open>cc/lto.go\<close>, so each query is a field: \<^verbatim>\<open>Config().IsEnvTrue\<close> and
  \<^verbatim>\<open>Config().IsEnvFalse\<close> by variable name, the architecture, the module predicates,
  and \<^verbatim>\<open>android.PathForOutput(ctx, p).String()\<close> by path \<open>p\<close>.
\<close>

record Config =
  IsEnvTrue :: "string \<Rightarrow> bool"
  IsEnvFalse :: "string \<Rightarrow> bool"

record ArchType =
  Name :: string
  Multilib :: string

record Arch =
  ArchType :: ArchType

record BaseModuleContext =
  Config :: Config
  Arch :: Arch
  isCfi :: bool
  Host :: bool
  testBinary :: bool
  testLibrary :: bool
  isVndk :: bool
  isPgoCompile :: bool
  isAfdoCompile :: bool
  PathForOutput :: "string \<Rightarrow> string"

text \<open>
  The two package-level values \<^verbatim>\<open>android.Riscv64\<close> and \<^verbatim>\<open>config.SDClangPath\<close> are
  declared outside \<^verbatim>\<open>cc/lto.go\<close>; the functions that read them take them as a
  parameter.
\<close>

record packages =
  android_Riscv64 :: ArchType
  config_SDClangPath :: string

text \<open>The fields of \<^verbatim>\<open>Flags\<close> that \<^verbatim>\<open>lto.flags\<close> reads or writes.\<close>

record LocalOrGlobalFlags =
  CFlags :: "string list"
  AsFlags :: "string list"
  LdFlags :: "string list"

record Flags =
  Local :: LocalOrGlobalFlags
  Sdclang :: bool

section \<open>The methods of \<^verbatim>\<open>lto\<close>\<close>

text \<open>\<^verbatim>\<open>inList(s, list)\<close>: membership in a string slice.\<close>

definition inList :: "string \<Rightarrow> string list \<Rightarrow> bool" where
  "inList s xs = (s \<in> set xs)"

text \<open>\<^verbatim>\<open>strings.Contains(s, substr)\<close>: \<open>substr\<close> occurs in \<open>s\<close> at some offset.\<close>

fun Contains :: "string \<Rightarrow> string \<Rightarrow> bool" where
  "Contains [] substr = (substr = [])"
| "Contains (c # s) substr = (take (length substr) (c # s) = substr \<or> Contains s substr)"

text \<open>
  \<^verbatim>\<open>lto.begin\<close>: under \<^verbatim>\<open>DISABLE_LTO\<close> the receiver's \<^verbatim>\<open>NoLtoEnabled\<close> is set. The
  receiver is a pointer; writing through nil panics.
\<close>

definition lto_begin :: "BaseModuleContext \<Rightarrow> lto option \<Rightarrow> panic + lto option" where
  "lto_begin ctx l =
     (if IsEnvTrue (Config ctx) ''DISABLE_LTO''
      then (case l of
              None \<Rightarrow> Inl NilPointerDereference
            | Some r \<Rightarrow> Inr (Some (r\<lparr>Properties := (Properties r)\<lparr>NoLtoEnabled := True\<rparr>\<rparr>)))
      else Inr l)"

definition useClangLld :: "lto \<Rightarrow> bool" where
  "useClangLld r =
     (if Use_clang_lld (Properties r) \<noteq> None then Bool (Use_clang_lld (Properties r)) else True)"

definition FullLTO :: "lto option \<Rightarrow> bool" where
  "FullLTO l =
     (case l of None \<Rightarrow> False
      | Some r \<Rightarrow> Bool (Full (Lto (Properties r))) \<or> FullEnabled (Properties r))"

definition ThinLTO :: "lto option \<Rightarrow> bool" where
  "ThinLTO l =
     (case l of None \<Rightarrow> False
      | Some r \<Rightarrow> Bool (Thin (Lto (Properties r))) \<or> ThinEnabled (Properties r))"

definition lto_Never :: "lto option \<Rightarrow> bool" where
  "lto_Never l =
     (case l of None \<Rightarrow> False
      | Some r \<Rightarrow> Bool (Never (Lto (Properties r))) \<or> NoLtoEnabled (Properties r))"

definition GlobalThinLTO :: "Config \<Rightarrow> bool" where
  "GlobalThinLTO cfg = (\<not> IsEnvFalse cfg ''GLOBAL_THINLTO'')"

definition DefaultThinLTO :: "BaseModuleContext \<Rightarrow> lto option \<Rightarrow> bool" where
  "DefaultThinLTO ctx l =
     (let lib32 = (Multilib (ArchType (Arch ctx)) = ''lib32'');
          cfi = isCfi ctx;
          host = Host ctx;
          test = (testBinary ctx \<or> testLibrary ctx);
          vndk = isVndk ctx
      in GlobalThinLTO (Config ctx) \<and> \<not> lto_Never l \<and> \<not> lib32 \<and> \<not> cfi \<and> \<not> host
           \<and> \<not> test \<and> \<not> vndk)"

definition LTO :: "BaseModuleContext \<Rightarrow> lto option \<Rightarrow> bool" where
  "LTO ctx l = (ThinLTO l \<or> FullLTO l \<or> DefaultThinLTO ctx l)"

text \<open>
  The choice of the compiler flag and of the extra linker flag in \<^verbatim>\<open>lto.flags\<close>. The
  extra linker flag is the empty string except on the default-thin branch, and it is
  appended to the linker flags in every case.
\<close>

definition ltoCFlag :: "packages \<Rightarrow> lto option \<Rightarrow> Flags \<Rightarrow> string" where
  "ltoCFlag pk l fl =
     (if ThinLTO l
      then (if Sdclang fl \<and> \<not> Contains (config_SDClangPath pk) ''9.0''
            then ''-flto=thin''
            else ''-flto=thin -fsplit-lto-unit'')
      else if FullLTO l then ''-flto''
      else ''-flto=thin -fsplit-lto-unit'')"

definition ltoLdFlag :: "lto option \<Rightarrow> string" where
  "ltoLdFlag l =
     (if ThinLTO l then ''''
      else if FullLTO l then ''''
      else ''-Wl,--lto-O0'')"

definition cacheFlags :: "BaseModuleContext \<Rightarrow> lto \<Rightarrow> string list" where
  "cacheFlags ctx r =
     (if (DefaultThinLTO ctx (Some r) \<or> ThinLTO (Some r))
         \<and> IsEnvTrue (Config ctx) ''USE_THINLTO_CACHE'' \<and> useClangLld r
      then [''-Wl,--thinlto-cache-dir='' @ PathForOutput ctx ''thinlto-cache'',
            ''-Wl,--thinlto-cache-policy='' @ ''cache_size=10%:cache_size_bytes=10g'']
      else [])"

definition inlineLimitFlags :: "BaseModuleContext \<Rightarrow> string list" where
  "inlineLimitFlags ctx =
     (if \<not> isPgoCompile ctx \<and> \<not> isAfdoCompile ctx
      then [''-Wl,-plugin-opt,-import-instr-limit=40'',
            ''-Wl,-mllvm,-inline-threshold=600'',
            ''-Wl,-mllvm,-inlinehint-threshold=750'',
            ''-Wl,-mllvm,-unroll-threshold=600'']
      else [])"

text \<open>
  \<^verbatim>\<open>lto.flags\<close>. The two early returns come first. When LTO is on, the receiver's
  \<^verbatim>\<open>Whole_program_vtables\<close> is read, which panics on a nil receiver (a nil receiver can
  be LTO only by default-thin).
\<close>

definition flags :: "packages \<Rightarrow> BaseModuleContext \<Rightarrow> lto option \<Rightarrow> Flags \<Rightarrow> panic + Flags" where
  "flags pk ctx l fl =
     (if inList ''-fsanitize=fuzzer-no-link'' (CFlags (Local fl)) then Inr fl
      else if ArchType (Arch ctx) = android_Riscv64 pk then Inr fl
      else if LTO ctx l then
        (case l of
           None \<Rightarrow> Inl NilPointerDereference
         | Some r \<Rightarrow>
             Inr (fl\<lparr>Local := (Local fl)
                   \<lparr>CFlags := CFlags (Local fl) @ [ltoCFlag pk l fl]
                        @ (if Bool (Whole_program_vtables (Properties r))
                           then [''-fwhole-program-vtables''] else []),
                    AsFlags := AsFlags (Local fl) @ [ltoCFlag pk l fl],
                    LdFlags := LdFlags (Local fl) @ [ltoCFlag pk l fl, ltoLdFlag l]
                        @ cacheFlags ctx r @ inlineLimitFlags ctx\<rparr>\<rparr>))
      else Inr fl)"

section \<open>The dependency graph\<close>

text \<open>
  The dependency tags the visitor of \<^verbatim>\<open>ltoDepsMutator\<close> tells apart: a
  \<^verbatim>\<open>libraryDependencyTag\<close> (with the answer of its \<^verbatim>\<open>static()\<close>), \<^verbatim>\<open>objDepTag\<close>,
  \<^verbatim>\<open>reuseObjTag\<close>, and any other tag. Their declarations are outside \<^verbatim>\<open>cc/lto.go\<close>.
\<close>

datatype DependencyTag =
    libraryDependencyTag bool
  | objDepTag
  | reuseObjTag
  | otherDependencyTag

record BaseProperties =
  PreventInstall :: bool
  HideFromMake :: bool

record Module =
  lto :: "lto option"
  Module_Properties :: BaseProperties

text \<open>
  An \<^verbatim>\<open>android.Module\<close> is a \<^verbatim>\<open>*cc.Module\<close> or a module of another type, on which
  the type assertion \<^verbatim>\<open>.(*Module)\<close> fails.
\<close>

datatype android_Module = CcModule Module | OtherModule

text \<open>
  The graph is an arena of modules: a module is its index, and its direct dependencies
  are pairs of a tag and the index of the dependency.
\<close>

record moduleInfo =
  name :: string
  logicModule :: android_Module
  directDeps :: "(DependencyTag \<times> nat) list"

type_synonym graph = "moduleInfo list"

datatype PropertyError = PropertyError string string string

section \<open>The top-down pass: \<^verbatim>\<open>ltoDepsMutator\<close>\<close>

text \<open>
  The edge test at the head of the visitor: \<open>False\<close> is its \<^verbatim>\<open>return false\<close>
  (a library tag that is not static, or a tag that is neither \<^verbatim>\<open>objDepTag\<close> nor
  \<^verbatim>\<open>reuseObjTag\<close>).
\<close>

fun staticDepTag :: "DependencyTag \<Rightarrow> bool" where
  "staticDepTag (libraryDependencyTag static) = static"
| "staticDepTag objDepTag = True"
| "staticDepTag reuseObjTag = True"
| "staticDepTag otherDependencyTag = False"

text \<open>An assignment \<^verbatim>\<open>dep.lto.Properties.X = true\<close>; \<^verbatim>\<open>dep.lto\<close> may be nil.\<close>

fun setDep :: "(LTOProperties \<Rightarrow> LTOProperties) \<Rightarrow> lto option \<Rightarrow> panic + lto option" where
  "setDep f None = Inl NilPointerDereference"
| "setDep f (Some r) = Inr (Some (r\<lparr>Properties := f (Properties r)\<rparr>))"

text \<open>The three conditional assignments of the visitor, in the order of the source.\<close>

definition visitDep :: "bool \<Rightarrow> bool \<Rightarrow> bool \<Rightarrow> bool \<Rightarrow> lto option \<Rightarrow> panic + lto option" where
  "visitDep globalThinLTO full thin never l =
     (case (if full \<and> \<not> FullLTO l then setDep (\<lambda>p. p\<lparr>FullDep := True\<rparr>) l else Inr l) of
        Inl e \<Rightarrow> Inl e
      | Inr l1 \<Rightarrow>
     (case (if \<not> globalThinLTO \<and> thin \<and> \<not> ThinLTO l1
            then setDep (\<lambda>p. p\<lparr>ThinDep := True\<rparr>) l1 else Inr l1) of
        Inl e \<Rightarrow> Inl e
      | Inr l2 \<Rightarrow>
          (if globalThinLTO \<and> never \<and> \<not> lto_Never l2
           then setDep (\<lambda>p. p\<lparr>NoLtoDep := True\<rparr>) l2 else Inr l2)))"

text \<open>
  The visitor passed to \<^verbatim>\<open>WalkDeps\<close>, called with the dependency and the tag of the
  edge that leads to it. It returns the graph after its assignments and its boolean
  result (\<open>True\<close>: walk the dependencies of \<open>dep\<close> too).
\<close>

definition visit ::
  "bool \<Rightarrow> bool \<Rightarrow> bool \<Rightarrow> bool \<Rightarrow> nat \<Rightarrow> DependencyTag \<Rightarrow> graph \<Rightarrow> panic + (graph \<times> bool)" where
  "visit globalThinLTO full thin never dep tag g =
     (if \<not> staticDepTag tag then Inr (g, False)
      else if dep < length g then
        (case logicModule (g ! dep) of
           OtherModule \<Rightarrow> Inr (g, True)
         | CcModule d \<Rightarrow>
             (case visitDep globalThinLTO full thin never (lto d) of
                Inl e \<Rightarrow> Inl e
              | Inr l' \<Rightarrow>
                  Inr (g[dep := (g ! dep)\<lparr>logicModule := CcModule (d\<lparr>lto := l'\<rparr>)\<rparr>], True)))
      else Inr (g, True))"

text \<open>
  Modelled from the spec: \<^verbatim>\<open>WalkDeps\<close> is the host engine's walk, whose code is not in
  \<^verbatim>\<open>cc/lto.go\<close>; the spec describes it as a depth-first traversal that calls the
  visitor with a stop/continue decision per edge. \<open>walk\<close> keeps a stack of edges still
  to visit and the list of modules already entered: the visitor is called on every edge
  out of an entered module, and a dependency is entered (its own edges pushed) when the
  visitor says so and it has not been entered before. A panic of the visitor ends the
  walk.
\<close>

function walk ::
  "(nat \<Rightarrow> (DependencyTag \<times> nat) list) \<Rightarrow> nat
     \<Rightarrow> (nat \<Rightarrow> DependencyTag \<Rightarrow> 's \<Rightarrow> panic + ('s \<times> bool))
     \<Rightarrow> nat list \<Rightarrow> (DependencyTag \<times> nat) list \<Rightarrow> 's \<Rightarrow> panic + 's" where
  "walk deps n vis visited [] s = Inr s"
| "walk deps n vis visited ((tag, child) # todo) s =
     (case vis child tag s of
        Inl e \<Rightarrow> Inl e
      | Inr (s', recurse) \<Rightarrow>
          if recurse \<and> child < n \<and> child \<notin> set visited
          then walk deps n vis (child # visited) (deps child @ todo) s'
          else walk deps n vis visited todo s')"
  by pat_completeness auto
termination
proof (relation "measures [\<lambda>(deps, n, vis, visited, todo, s). card ({..<n} - set visited),
                            \<lambda>(deps, n, vis, visited, todo, s). length todo]", goal_cases)
  case 1
  show ?case by simp
next
  case (2 deps n vis visited tag child todo s x2 s' recurse)
  then have "{..<n} - set (child # visited) \<subset> {..<n} - set visited"
    by auto
  then have "card ({..<n} - set (child # visited)) < card ({..<n} - set visited)"
    by (intro psubset_card_mono) auto
  then show ?case by simp
next
  case 3
  then show ?case by simp
qed

definition WalkDeps ::
  "graph \<Rightarrow> nat \<Rightarrow> (nat \<Rightarrow> DependencyTag \<Rightarrow> graph \<Rightarrow> panic + (graph \<times> bool)) \<Rightarrow> panic + graph" where
  "WalkDeps g m vis =
     walk (\<lambda>i. directDeps (g ! i)) (length g) vis [m] (directDeps (g ! m)) g"

text \<open>
  Modelled from the spec: \<^verbatim>\<open>PropertyErrorf\<close> belongs to the mutator context, outside
  \<^verbatim>\<open>cc/lto.go\<close>. The spec has it report a configuration error that carries the
  module's identity and a message, without aborting the process: the error is added to
  the errors of the context and the caller goes on.
\<close>

definition PropertyErrorf ::
  "string \<Rightarrow> string \<Rightarrow> string \<Rightarrow> PropertyError list \<Rightarrow> PropertyError list" where
  "PropertyErrorf module property msg errs = errs @ [PropertyError module property msg]"

text \<open>
  \<^verbatim>\<open>ltoDepsMutator\<close> on module \<open>m\<close> of the graph: the errors reported, and the graph
  after the walk (or the panic that ended it). No statement follows the call of
  \<^verbatim>\<open>PropertyErrorf\<close> but the walk itself.
\<close>

definition ltoDepsMutator ::
  "Config \<Rightarrow> graph \<Rightarrow> nat \<Rightarrow> PropertyError list \<times> (panic + graph)" where
  "ltoDepsMutator cfg g m =
     (let globalThinLTO = GlobalThinLTO cfg in
      case logicModule (g ! m) of
        OtherModule \<Rightarrow> ([], Inr g)
      | CcModule c \<Rightarrow>
          (let full = FullLTO (lto c);
               thin = ThinLTO (lto c);
               never = lto_Never (lto c);
               errs = (if full \<and> thin
                       then PropertyErrorf (name (g ! m)) ''LTO''
                              ''FullLTO and ThinLTO are mutually exclusive'' []
                       else [])
           in (errs, WalkDeps g m (visit globalThinLTO full thin never))))"

section \<open>The bottom-up pass: \<^verbatim>\<open>ltoMutator\<close>\<close>

definition variationNames :: "bool \<Rightarrow> lto \<Rightarrow> string list" where
  "variationNames globalThinLTO r =
     ['''']
     @ (if FullDep (Properties r) \<and> \<not> FullLTO (Some r) then [''lto-full''] else [])
     @ (if \<not> globalThinLTO \<and> ThinDep (Properties r) \<and> \<not> ThinLTO (Some r)
        then [''lto-thin''] else [])
     @ (if globalThinLTO \<and> NoLtoDep (Properties r) \<and> \<not> lto_Never (Some r)
        then [''lto-none''] else [])"

text \<open>
  Modelled from the spec: \<^verbatim>\<open>SetDependencyVariation\<close> is the host engine's. The spec has
  the module's outgoing static-dependency edges select the variant of that name, a later
  selection overriding an earlier one (the source's comment: Never must be the last, it
  overrides Thin or Full). The state is the variation currently selected, if any.
\<close>

definition SetDependencyVariation :: "string \<Rightarrow> string option \<Rightarrow> string option" where
  "SetDependencyVariation variationName selected = Some variationName"

text \<open>
  Modelled from the spec: \<^verbatim>\<open>CreateVariations\<close> is the host engine's. The spec's
  create-clone primitive gives one module per variation name, in the order of the names,
  each a copy of the module as it is.
\<close>

definition CreateVariations :: "Module \<Rightarrow> string list \<Rightarrow> Module list" where
  "CreateVariations m names = map (\<lambda>_. m) names"

text \<open>
  The body of the loop over the variations: the default variation (the empty name) is
  skipped; a named one gets its mode flag, is kept out of the install set and has its
  request flags cleared.
\<close>

definition ltoVariation :: "string \<Rightarrow> Module \<Rightarrow> panic + Module" where
  "ltoVariation variationName variation =
     (if variationName = '''' then Inr variation
      else
        (case lto variation of
           None \<Rightarrow> Inl NilPointerDereference
         | Some r \<Rightarrow>
             (let p0 = Properties r;
                  p1 = (if variationName = ''lto-full'' then p0\<lparr>FullEnabled := True\<rparr> else p0);
                  p2 = (if variationName = ''lto-thin'' then p1\<lparr>ThinEnabled := True\<rparr> else p1);
                  p3 = (if variationName = ''lto-none'' then p2\<lparr>NoLtoEnabled := True\<rparr> else p2)
              in Inr (variation
                   \<lparr>lto := Some (r\<lparr>Properties :=
                             p3\<lparr>FullDep := False, ThinDep := False, NoLtoDep := False\<rparr>\<rparr>),
                    Module_Properties := (Module_Properties variation)
                             \<lparr>PreventInstall := True, HideFromMake := True\<rparr>\<rparr>))))"

fun ltoVariations :: "(string \<times> Module) list \<Rightarrow> panic + (string \<times> Module) list" where
  "ltoVariations [] = Inr []"
| "ltoVariations ((variationName, variation) # rest) =
     (case ltoVariation variationName variation of
        Inl e \<Rightarrow> Inl e
      | Inr v \<Rightarrow>
          (case ltoVariations rest of
             Inl e \<Rightarrow> Inl e
           | Inr vs \<Rightarrow> Inr ((variationName, v) # vs)))"

text \<open>
  What \<^verbatim>\<open>ltoMutator\<close> leaves behind for one module: the dependency variation selected
  and the variations created, each with its name (none when \<^verbatim>\<open>CreateVariations\<close> is
  not called).
\<close>

record BottomUpMutatorContext =
  dependencyVariation :: "string option"
  variations :: "(string \<times> Module) list"

definition ltoMutator :: "Config \<Rightarrow> android_Module \<Rightarrow> panic + BottomUpMutatorContext" where
  "ltoMutator cfg am =
     (let globalThinLTO = GlobalThinLTO cfg in
      case am of
        OtherModule \<Rightarrow> Inr \<lparr>dependencyVariation = None, variations = []\<rparr>
      | CcModule m \<Rightarrow>
          (case lto m of
             None \<Rightarrow> Inr \<lparr>dependencyVariation = None, variations = []\<rparr>
           | Some r \<Rightarrow>
               (let names = variationNames globalThinLTO r;
                    d0 = None;
                    d1 = (if FullLTO (lto m) then SetDependencyVariation ''lto-full'' d0 else d0);
                    d2 = (if \<not> globalThinLTO \<and> ThinLTO (lto m)
                          then SetDependencyVariation ''lto-thin'' d1 else d1);
                    d3 = (if globalThinLTO \<and> lto_Never (lto m)
                          then SetDependencyVariation ''lto-none'' d2 else d2)
                in if length names > 1
                   then (case ltoVariations (zip names (CreateVariations m names)) of
                           Inl e \<Rightarrow> Inl e
                         | Inr vs \<Rightarrow> Inr \<lparr>dependencyVariation = d3, variations = vs\<rparr>)
                   else Inr \<lparr>dependencyVariation = d3, variations = []\<rparr>)))"

section \<open>Paths of static edges\<close>

text \<open>
  \<open>reaches g m d\<close>: there is a path of one or more edges from \<open>m\<close> to \<open>d\<close> in \<open>g\<close>, every
  edge of which passes the visitor's edge test.
\<close>

inductive reaches :: "graph \<Rightarrow> nat \<Rightarrow> nat \<Rightarrow> bool" for g :: graph and m :: nat where
  direct: "(tag, d) \<in> set (directDeps (g ! m)) \<Longrightarrow> staticDepTag tag \<Longrightarrow> reaches g m d"
| step: "reaches g m p \<Longrightarrow> (tag, d) \<in> set (directDeps (g ! p)) \<Longrightarrow> staticDepTag tag
         \<Longrightarrow> reaches g m d"

section \<open>Concrete inputs\<close>

text \<open>Environments: nothing set; \<^verbatim>\<open>GLOBAL_THINLTO\<close> false; \<^verbatim>\<open>DISABLE_LTO\<close> true.\<close>

definition env_unset :: Config where
  "env_unset = \<lparr>IsEnvTrue = (\<lambda>k. False), IsEnvFalse = (\<lambda>k. False)\<rparr>"

definition env_thinlto_off :: Config where
  "env_thinlto_off = \<lparr>IsEnvTrue = (\<lambda>k. False), IsEnvFalse = (\<lambda>k. k = ''GLOBAL_THINLTO'')\<rparr>"

definition env_disable_lto :: Config where
  "env_disable_lto = \<lparr>IsEnvTrue = (\<lambda>k. k = ''DISABLE_LTO''), IsEnvFalse = (\<lambda>k. False)\<rparr>"

text \<open>A 64-bit device module that is no test, not CFI, not VNDK and has no profile.\<close>

definition deviceContext :: "Config \<Rightarrow> ArchType \<Rightarrow> BaseModuleContext" where
  "deviceContext cfg arch =
     \<lparr>Config = cfg, Arch = \<lparr>ArchType = arch\<rparr>, isCfi = False, Host = False,
      testBinary = False, testLibrary = False, isVndk = False, isPgoCompile = False,
      isAfdoCompile = False, PathForOutput = (\<lambda>p. ''out/soong/'' @ p)\<rparr>"

definition arm64 :: ArchType where
  "arm64 = \<lparr>Name = ''arm64'', Multilib = ''lib64''\<rparr>"

definition riscv64 :: ArchType where
  "riscv64 = \<lparr>Name = ''riscv64'', Multilib = ''lib64''\<rparr>"

definition pkgs :: packages where
  "pkgs = \<lparr>android_Riscv64 = riscv64, config_SDClangPath = ''vendor/sdclang/8.0''\<rparr>"

definition noFlags :: Flags where
  "noFlags = \<lparr>Local = \<lparr>CFlags = [], AsFlags = [], LdFlags = []\<rparr>, Sdclang = False\<rparr>"

text \<open>
  The \<^verbatim>\<open>lto\<close> of a module as it comes from the blueprint file: the three properties
  as given, every mutated flag false.
\<close>

definition ltoOf :: "bool option \<Rightarrow> bool option \<Rightarrow> bool option \<Rightarrow> lto" where
  "ltoOf never full thin =
     \<lparr>Properties = \<lparr>Lto = \<lparr>Never = never, Full = full, Thin = thin\<rparr>,
        FullEnabled = False, ThinEnabled = False, NoLtoEnabled = False,
        FullDep = False, ThinDep = False, NoLtoDep = False,
        Use_clang_lld = None, Whole_program_vtables = None\<rparr>\<rparr>"

definition ccModule :: "lto \<Rightarrow> Module" where
  "ccModule r =
     \<lparr>lto = Some r, Module_Properties = \<lparr>PreventInstall = False, HideFromMake = False\<rparr>\<rparr>"

text \<open>The chain A \<open>\<rightarrow>\<close> B \<open>\<rightarrow>\<close> C, with the tags of its two edges.\<close>

definition chain ::
  "android_Module \<Rightarrow> android_Module \<Rightarrow> android_Module \<Rightarrow> DependencyTag \<Rightarrow> DependencyTag \<Rightarrow> graph" where
  "chain a b c tagAB tagBC =
     [\<lparr>name = ''A'', logicModule = a, directDeps = [(tagAB, 1)]\<rparr>,
      \<lparr>name = ''B'', logicModule = b, directDeps = [(tagBC, 2)]\<rparr>,
      \<lparr>name = ''C'', logicModule = c, directDeps = []\<rparr>]"

text \<open>The request flags of module \<open>d\<close> of a graph (all false where there is no \<^verbatim>\<open>lto\<close>).\<close>

definition depFlags :: "graph \<Rightarrow> nat \<Rightarrow> bool \<times> bool \<times> bool" where
  "depFlags g d =
     (case logicModule (g ! d) of
        OtherModule \<Rightarrow> (False, False, False)
      | CcModule c \<Rightarrow>
          (case lto c of
             None \<Rightarrow> (False, False, False)
           | Some r \<Rightarrow> (FullDep (Properties r), ThinDep (Properties r), NoLtoDep (Properties r))))"

text \<open>The same \<^verbatim>\<open>lto\<close> with the three request flags as given.\<close>

definition withDeps :: "bool \<Rightarrow> bool \<Rightarrow> bool \<Rightarrow> lto \<Rightarrow> lto" where
  "withDeps full thin none r =
     r\<lparr>Properties := (Properties r)\<lparr>FullDep := full, ThinDep := thin, NoLtoDep := none\<rparr>\<rparr>"

text \<open>
  A variation that is internal only: kept out of the install set, hidden from Make, and
  with no request flag of its own.
\<close>

definition internalClone :: "Module \<Rightarrow> bool" where
  "internalClone v =
     (case lto v of
        None \<Rightarrow> False
      | Some r \<Rightarrow>
          PreventInstall (Module_Properties v) \<and> HideFromMake (Module_Properties v)
          \<and> \<not> FullDep (Properties r) \<and> \<not> ThinDep (Properties r)
          \<and> \<not> NoLtoDep (Properties r))"

text \<open>
  The bottom-up pass run once more, on each of the variations a first run has left: the
  result of \<^verbatim>\<open>ltoMutator\<close> for each, under its name.
\<close>

fun ltoMutatorEach ::
  "Config \<Rightarrow> (string \<times> Module) list \<Rightarrow> panic + (string \<times> BottomUpMutatorContext) list" where
  "ltoMutatorEach cfg [] = Inr []"
| "ltoMutatorEach cfg ((variationName, variation) # rest) =
     (case ltoMutator cfg (CcModule variation) of
        Inl e \<Rightarrow> Inl e
      | Inr res \<Rightarrow>
          (case ltoMutatorEach cfg rest of
             Inl e \<Rightarrow> Inl e
           | Inr rs \<Rightarrow> Inr ((variationName, res) # rs)))"

text \<open>The request flags of module \<open>d\<close> after a walk, when the walk has not panicked.\<close>

definition flagsAfter :: "panic + graph \<Rightarrow> nat \<Rightarrow> (bool \<times> bool \<times> bool) option" where
  "flagsAfter res d = (case res of Inl e \<Rightarrow> None | Inr g \<Rightarrow> Some (depFlags g d))"

text \<open>A module without a mode of its own on which a walk has set \<^verbatim>\<open>FullDep\<close>.\<close>

definition requestedFull :: Module where
  "requestedFull = ccModule (withDeps True False False (ltoOf None None None))"

text \<open>The \<^verbatim>\<open>lto\<close> of a module from the blueprint file after \<^verbatim>\<open>begin\<close> under \<^verbatim>\<open>DISABLE_LTO\<close>.\<close>

definition disabledLto :: "bool option \<Rightarrow> bool option \<Rightarrow> bool option \<Rightarrow> lto" where
  "disabledLto never full thin =
     (ltoOf never full thin)\<lparr>Properties := (Properties (ltoOf never full thin))\<lparr>NoLtoEnabled := True\<rparr>\<rparr>"

section \<open>Facts about the methods\<close>

lemma FullLTO_Some:
  "FullLTO (Some r) = (Full (Lto (Properties r)) = Some True \<or> FullEnabled (Properties r))"
  by (cases "Full (Lto (Properties r))") (simp_all add: FullLTO_def)

lemma ThinLTO_Some:
  "ThinLTO (Some r) = (Thin (Lto (Properties r)) = Some True \<or> ThinEnabled (Properties r))"
  by (cases "Thin (Lto (Properties r))") (simp_all add: ThinLTO_def)

lemma lto_Never_Some:
  "lto_Never (Some r) = (Never (Lto (Properties r)) = Some True \<or> NoLtoEnabled (Properties r))"
  by (cases "Never (Lto (Properties r))") (simp_all add: lto_Never_def)

lemma flags_without_LTO: "\<not> LTO ctx l \<Longrightarrow> flags pk ctx l fl = Inr fl"
  by (simp add: flags_def)

lemma flags_with_LTO:
  assumes "\<not> inList ''-fsanitize=fuzzer-no-link'' (CFlags (Local fl))"
    and "ArchType (Arch ctx) \<noteq> android_Riscv64 pk"
    and "LTO ctx (Some r)"
  shows "flags pk ctx (Some r) fl =
           Inr (fl\<lparr>Local := (Local fl)
                 \<lparr>CFlags := CFlags (Local fl) @ [ltoCFlag pk (Some r) fl]
                      @ (if Bool (Whole_program_vtables (Properties r))
                         then [''-fwhole-program-vtables''] else []),
                  AsFlags := AsFlags (Local fl) @ [ltoCFlag pk (Some r) fl],
                  LdFlags := LdFlags (Local fl) @ [ltoCFlag pk (Some r) fl, ltoLdFlag (Some r)]
                      @ cacheFlags ctx r @ inlineLimitFlags ctx\<rparr>\<rparr>)"
  using assms by (simp add: flags_def)

lemma lto_O0_not_in_cacheFlags: "''-Wl,--lto-O0'' \<notin> set (cacheFlags ctx r)"
  by (simp add: cacheFlags_def)

lemma lto_O0_not_in_inlineLimitFlags: "''-Wl,--lto-O0'' \<notin> set (inlineLimitFlags ctx)"
  by (simp add: inlineLimitFlags_def)

lemma lto_O0_not_ltoCFlag: "ltoCFlag pk l fl \<noteq> ''-Wl,--lto-O0''"
  by (simp add: ltoCFlag_def)

section \<open>The default-thin policy\<close>

text \<open>
  Claim C5. For a module with neither explicit nor propagated Full or Thin,
  \<^verbatim>\<open>DefaultThinLTO\<close> holds exactly when the global thin-default policy is on, Never is
  not set, and the module is not a lib32 target, not a CFI target, not a host build, not
  a test binary or library and not a VNDK library. Then the module is LTO and its
  compiler flag is the thin one; otherwise it is not LTO and \<^verbatim>\<open>flags\<close> returns its
  input.
\<close>

theorem C5_default_thin:
  assumes "\<not> FullLTO l" and "\<not> ThinLTO l"
  shows "DefaultThinLTO ctx l =
           (GlobalThinLTO (Config ctx) \<and> \<not> lto_Never l
            \<and> Multilib (ArchType (Arch ctx)) \<noteq> ''lib32'' \<and> \<not> isCfi ctx \<and> \<not> Host ctx
            \<and> \<not> testBinary ctx \<and> \<not> testLibrary ctx \<and> \<not> isVndk ctx)
         \<and> LTO ctx l = DefaultThinLTO ctx l
         \<and> (if DefaultThinLTO ctx l
            then ltoCFlag pk l fl = ''-flto=thin -fsplit-lto-unit''
            else flags pk ctx l fl = Inr fl)"
  using assms by (auto simp: DefaultThinLTO_def LTO_def ltoCFlag_def flags_def)

theorem C5_default_thin_witness:
  "\<not> FullLTO (Some (ltoOf None None None)) \<and> \<not> ThinLTO (Some (ltoOf None None None))
   \<and> DefaultThinLTO (deviceContext env_unset arm64) (Some (ltoOf None None None))
   \<and> LTO (deviceContext env_unset arm64) (Some (ltoOf None None None))
   \<and> ltoCFlag pkgs (Some (ltoOf None None None)) noFlags = ''-flto=thin -fsplit-lto-unit''
   \<and> \<not> DefaultThinLTO (deviceContext env_thinlto_off arm64) (Some (ltoOf None None None))
   \<and> flags pkgs (deviceContext env_thinlto_off arm64) (Some (ltoOf None None None)) noFlags
       = Inr noFlags"
proof -
  have f: "\<not> FullLTO (Some (ltoOf None None None))"
    and t: "\<not> ThinLTO (Some (ltoOf None None None))"
    by (simp_all add: FullLTO_def ThinLTO_def ltoOf_def)
  have on: "DefaultThinLTO (deviceContext env_unset arm64) (Some (ltoOf None None None))"
    and off: "\<not> DefaultThinLTO (deviceContext env_thinlto_off arm64) (Some (ltoOf None None None))"
    by (simp_all add: DefaultThinLTO_def GlobalThinLTO_def lto_Never_def deviceContext_def
        env_unset_def env_thinlto_off_def arm64_def ltoOf_def)
  from C5_default_thin [OF f t, of "deviceContext env_unset arm64" pkgs noFlags] on
  have 1: "LTO (deviceContext env_unset arm64) (Some (ltoOf None None None))
           \<and> ltoCFlag pkgs (Some (ltoOf None None None)) noFlags = ''-flto=thin -fsplit-lto-unit''"
    by simp
  from C5_default_thin [OF f t, of "deviceContext env_thinlto_off arm64" pkgs noFlags] off
  have 2: "flags pkgs (deviceContext env_thinlto_off arm64) (Some (ltoOf None None None)) noFlags
             = Inr noFlags"
    by simp
  from f t on off 1 2 show ?thesis by simp
qed

section \<open>The flags\<close>

text \<open>
  Claim C9. When the local C flags contain \<^verbatim>\<open>-fsanitize=fuzzer-no-link\<close>, or the target
  architecture is riscv64, \<^verbatim>\<open>flags\<close> returns its input unchanged, whatever the LTO mode
  of the module.
\<close>

theorem C9_flags_unchanged_fuzzer_riscv64:
  assumes "inList ''-fsanitize=fuzzer-no-link'' (CFlags (Local fl))
           \<or> ArchType (Arch ctx) = android_Riscv64 pk"
  shows "flags pk ctx l fl = Inr fl"
  using assms by (auto simp: flags_def)

theorem C9_flags_unchanged_fuzzer_riscv64_witness:
  "ArchType (Arch (deviceContext env_unset riscv64)) = android_Riscv64 pkgs
   \<and> FullLTO (Some (ltoOf None (Some True) None))
   \<and> LTO (deviceContext env_unset riscv64) (Some (ltoOf None (Some True) None))
   \<and> flags pkgs (deviceContext env_unset riscv64) (Some (ltoOf None (Some True) None)) noFlags
       = Inr noFlags"
proof -
  have a: "ArchType (Arch (deviceContext env_unset riscv64)) = android_Riscv64 pkgs"
    by (simp add: deviceContext_def pkgs_def)
  have b: "FullLTO (Some (ltoOf None (Some True) None))"
    by (simp add: FullLTO_def ltoOf_def)
  from C9_flags_unchanged_fuzzer_riscv64 [OF disjI2, OF a] a b show ?thesis
    by (simp add: LTO_def)
qed

text \<open>
  Claim C10. Where \<^verbatim>\<open>flags\<close> applies LTO (neither early return is taken): a module
  that is LTO by default-thin only gets the linker flag \<^verbatim>\<open>-Wl,--lto-O0\<close> right after
  \<^verbatim>\<open>-flto=thin -fsplit-lto-unit\<close>; for a module with explicit or propagated Thin none
  of the linker flags added is \<^verbatim>\<open>-Wl,--lto-O0\<close> (the empty string is added in its
  place).
\<close>

theorem C10_default_thin_lto_O0:
  assumes "\<not> inList ''-fsanitize=fuzzer-no-link'' (CFlags (Local fl))"
    and "ArchType (Arch ctx) \<noteq> android_Riscv64 pk"
  shows "(DefaultThinLTO ctx (Some r) \<and> \<not> ThinLTO (Some r) \<and> \<not> FullLTO (Some r) \<longrightarrow>
            (\<exists>fl'. flags pk ctx (Some r) fl = Inr fl'
               \<and> CFlags (Local fl') = CFlags (Local fl) @ [''-flto=thin -fsplit-lto-unit'']
                    @ (if Bool (Whole_program_vtables (Properties r))
                       then [''-fwhole-program-vtables''] else [])
               \<and> LdFlags (Local fl') = LdFlags (Local fl)
                    @ [''-flto=thin -fsplit-lto-unit'', ''-Wl,--lto-O0'']
                    @ cacheFlags ctx r @ inlineLimitFlags ctx))
         \<and> (ThinLTO (Some r) \<longrightarrow>
            (\<exists>fl' added. flags pk ctx (Some r) fl = Inr fl'
               \<and> LdFlags (Local fl') = LdFlags (Local fl) @ added
               \<and> added = [ltoCFlag pk (Some r) fl, ''''] @ cacheFlags ctx r @ inlineLimitFlags ctx
               \<and> ''-Wl,--lto-O0'' \<notin> set added))"
proof (intro conjI impI)
  assume d: "DefaultThinLTO ctx (Some r) \<and> \<not> ThinLTO (Some r) \<and> \<not> FullLTO (Some r)"
  then have "LTO ctx (Some r)" by (simp add: LTO_def)
  from flags_with_LTO [OF assms this] d
  show "\<exists>fl'. flags pk ctx (Some r) fl = Inr fl'
               \<and> CFlags (Local fl') = CFlags (Local fl) @ [''-flto=thin -fsplit-lto-unit'']
                    @ (if Bool (Whole_program_vtables (Properties r))
                       then [''-fwhole-program-vtables''] else [])
               \<and> LdFlags (Local fl') = LdFlags (Local fl)
                    @ [''-flto=thin -fsplit-lto-unit'', ''-Wl,--lto-O0'']
                    @ cacheFlags ctx r @ inlineLimitFlags ctx"
    by (simp add: ltoCFlag_def ltoLdFlag_def)
next
  assume t: "ThinLTO (Some r)"
  then have "LTO ctx (Some r)" by (simp add: LTO_def)
  from flags_with_LTO [OF assms this] t
  have "flags pk ctx (Some r) fl = Inr (fl\<lparr>Local := (Local fl)
                 \<lparr>CFlags := CFlags (Local fl) @ [ltoCFlag pk (Some r) fl]
                      @ (if Bool (Whole_program_vtables (Properties r))
                         then [''-fwhole-program-vtables''] else []),
                  AsFlags := AsFlags (Local fl) @ [ltoCFlag pk (Some r) fl],
                  LdFlags := LdFlags (Local fl) @ [ltoCFlag pk (Some r) fl, '''']
                      @ cacheFlags ctx r @ inlineLimitFlags ctx\<rparr>\<rparr>)"
    by (simp add: ltoLdFlag_def)
  moreover have "''-Wl,--lto-O0'' \<notin> set ([ltoCFlag pk (Some r) fl, '''']
                      @ cacheFlags ctx r @ inlineLimitFlags ctx)"
    using lto_O0_not_in_cacheFlags [of ctx r] lto_O0_not_in_inlineLimitFlags [of ctx]
      lto_O0_not_ltoCFlag [of pk "Some r" fl]
    by auto
  ultimately
  show "\<exists>fl' added. flags pk ctx (Some r) fl = Inr fl'
               \<and> LdFlags (Local fl') = LdFlags (Local fl) @ added
               \<and> added = [ltoCFlag pk (Some r) fl, ''''] @ cacheFlags ctx r @ inlineLimitFlags ctx
               \<and> ''-Wl,--lto-O0'' \<notin> set added"
    by simp
qed

theorem C10_default_thin_lto_O0_witness:
  "DefaultThinLTO (deviceContext env_unset arm64) (Some (ltoOf None None None))
   \<and> flags pkgs (deviceContext env_unset arm64) (Some (ltoOf None None None)) noFlags
       = Inr \<lparr>Local = \<lparr>CFlags = [''-flto=thin -fsplit-lto-unit''],
                        AsFlags = [''-flto=thin -fsplit-lto-unit''],
                        LdFlags = [''-flto=thin -fsplit-lto-unit'', ''-Wl,--lto-O0'',
                                   ''-Wl,-plugin-opt,-import-instr-limit=40'',
                                   ''-Wl,-mllvm,-inline-threshold=600'',
                                   ''-Wl,-mllvm,-inlinehint-threshold=750'',
                                   ''-Wl,-mllvm,-unroll-threshold=600'']\<rparr>,
              Sdclang = False\<rparr>
   \<and> ThinLTO (Some (ltoOf None None (Some True)))
   \<and> flags pkgs (deviceContext env_unset arm64) (Some (ltoOf None None (Some True))) noFlags
       = Inr \<lparr>Local = \<lparr>CFlags = [''-flto=thin -fsplit-lto-unit''],
                        AsFlags = [''-flto=thin -fsplit-lto-unit''],
                        LdFlags = [''-flto=thin -fsplit-lto-unit'', '''',
                                   ''-Wl,-plugin-opt,-import-instr-limit=40'',
                                   ''-Wl,-mllvm,-inline-threshold=600'',
                                   ''-Wl,-mllvm,-inlinehint-threshold=750'',
                                   ''-Wl,-mllvm,-unroll-threshold=600'']\<rparr>,
              Sdclang = False\<rparr>"
proof -
  have nf: "\<not> inList ''-fsanitize=fuzzer-no-link'' (CFlags (Local noFlags))"
    by (simp add: inList_def noFlags_def)
  have nr: "ArchType (Arch (deviceContext env_unset arm64)) \<noteq> android_Riscv64 pkgs"
    by (simp add: deviceContext_def pkgs_def arm64_def riscv64_def)
  have d: "DefaultThinLTO (deviceContext env_unset arm64) (Some (ltoOf None None None))"
    and nd: "\<not> ThinLTO (Some (ltoOf None None None))" "\<not> FullLTO (Some (ltoOf None None None))"
    and t: "ThinLTO (Some (ltoOf None None (Some True)))"
    by (simp_all add: DefaultThinLTO_def GlobalThinLTO_def lto_Never_def ThinLTO_def FullLTO_def
        deviceContext_def env_unset_def arm64_def ltoOf_def)
  from C10_default_thin_lto_O0 [OF nf nr, of "ltoOf None None None"] d nd
  obtain fl1 where
    1: "flags pkgs (deviceContext env_unset arm64) (Some (ltoOf None None None)) noFlags = Inr fl1"
    by blast
  from C10_default_thin_lto_O0 [OF nf nr, of "ltoOf None None (Some True)"] t
  obtain fl2 where
    2: "flags pkgs (deviceContext env_unset arm64) (Some (ltoOf None None (Some True))) noFlags = Inr fl2"
    by blast
  have "LTO (deviceContext env_unset arm64) (Some (ltoOf None None None))"
    and "LTO (deviceContext env_unset arm64) (Some (ltoOf None None (Some True)))"
    using d t by (simp_all add: LTO_def)
  then show ?thesis
    using 1 2 d t nd nf nr
    by (simp add: flags_def ltoCFlag_def ltoLdFlag_def cacheFlags_def inlineLimitFlags_def
        deviceContext_def env_unset_def noFlags_def ltoOf_def)
qed

section \<open>Facts about the bottom-up pass\<close>

lemma variationNames_cases:
  "variationNames gt r =
     '''' # (if FullDep (Properties r) \<and> \<not> FullLTO (Some r) then [''lto-full''] else [])
          @ (if gt then (if NoLtoDep (Properties r) \<and> \<not> lto_Never (Some r) then [''lto-none''] else [])
             else (if ThinDep (Properties r) \<and> \<not> ThinLTO (Some r) then [''lto-thin''] else []))"
  by (simp add: variationNames_def)

lemma distinct_variationNames: "distinct (variationNames gt r)"
  by (auto simp: variationNames_cases)

lemma ltoVariation_default: "ltoVariation '''' v = Inr v"
  by (simp add: ltoVariation_def)

lemma ltoVariation_full:
  "lto m = Some r \<Longrightarrow>
   ltoVariation ''lto-full'' m =
     Inr (m\<lparr>lto := Some (r\<lparr>Properties := (Properties r)
                \<lparr>FullEnabled := True, FullDep := False, ThinDep := False, NoLtoDep := False\<rparr>\<rparr>),
            Module_Properties := (Module_Properties m)
                \<lparr>PreventInstall := True, HideFromMake := True\<rparr>\<rparr>)"
  by (simp add: ltoVariation_def)

lemma ltoVariation_thin:
  "lto m = Some r \<Longrightarrow>
   ltoVariation ''lto-thin'' m =
     Inr (m\<lparr>lto := Some (r\<lparr>Properties := (Properties r)
                \<lparr>ThinEnabled := True, FullDep := False, ThinDep := False, NoLtoDep := False\<rparr>\<rparr>),
            Module_Properties := (Module_Properties m)
                \<lparr>PreventInstall := True, HideFromMake := True\<rparr>\<rparr>)"
  by (simp add: ltoVariation_def)

lemma ltoVariation_none:
  "lto m = Some r \<Longrightarrow>
   ltoVariation ''lto-none'' m =
     Inr (m\<lparr>lto := Some (r\<lparr>Properties := (Properties r)
                \<lparr>NoLtoEnabled := True, FullDep := False, ThinDep := False, NoLtoDep := False\<rparr>\<rparr>),
            Module_Properties := (Module_Properties m)
                \<lparr>PreventInstall := True, HideFromMake := True\<rparr>\<rparr>)"
  by (simp add: ltoVariation_def)

lemmas ltoVariation_named = ltoVariation_full ltoVariation_thin ltoVariation_none

text \<open>The variations created for a module, spelt out.\<close>

lemma ltoMutator_variations:
  assumes "lto m = Some r"
  shows "\<exists>d. ltoMutator cfg (CcModule m) =
           Inr \<lparr>dependencyVariation = d,
                variations =
                  (if length (variationNames (GlobalThinLTO cfg) r) > 1
                   then map (\<lambda>n. (n, case ltoVariation n m of Inr v \<Rightarrow> v | Inl e \<Rightarrow> m))
                          (variationNames (GlobalThinLTO cfg) r)
                   else [])\<rparr>"
  using assms
  by (simp add: ltoMutator_def Let_def CreateVariations_def variationNames_cases
      ltoVariation_default ltoVariation_named)

lemma internalClone_named:
  assumes "lto m = Some r" and "n \<in> {''lto-full'', ''lto-thin'', ''lto-none''}"
  shows "\<exists>v. ltoVariation n m = Inr v \<and> internalClone v"
  using assms by (auto simp: ltoVariation_named internalClone_def)

lemma variationNames_subset:
  "set (variationNames gt r) \<subseteq> {'''', ''lto-full'', ''lto-thin'', ''lto-none''}"
  by (auto simp: variationNames_cases)

lemma ltoMutator_clone_internal:
  assumes "ltoMutator cfg am = Inr res" and "(n, v) \<in> set (variations res)" and "n \<noteq> ''''"
  shows "internalClone v"
proof (cases am)
  case OtherModule
  with assms show ?thesis by (auto simp: ltoMutator_def)
next
  case (CcModule m)
  show ?thesis
  proof (cases "lto m")
    case None
    with CcModule assms show ?thesis by (auto simp: ltoMutator_def)
  next
    case (Some r)
    from ltoMutator_variations [OF Some, of cfg] CcModule assms(1,2)
    have n: "n \<in> set (variationNames (GlobalThinLTO cfg) r)"
      and v: "v = (case ltoVariation n m of Inr v \<Rightarrow> v | Inl e \<Rightarrow> m)"
      by (auto split: if_splits)
    from n assms(3) variationNames_subset [of "GlobalThinLTO cfg" r]
    have "n \<in> {''lto-full'', ''lto-thin'', ''lto-none''}" by auto
    from internalClone_named [OF Some this] v show ?thesis by auto
  qed
qed

lemma ltoMutator_internalClone:
  assumes "internalClone v"
  shows "\<exists>d. ltoMutator cfg (CcModule v) = Inr \<lparr>dependencyVariation = d, variations = []\<rparr>"
proof -
  from assms obtain r where r: "lto v = Some r"
    and "\<not> FullDep (Properties r)" "\<not> ThinDep (Properties r)" "\<not> NoLtoDep (Properties r)"
    by (auto simp: internalClone_def split: option.splits)
  then have "variationNames (GlobalThinLTO cfg) r = ['''']"
    by (simp add: variationNames_cases)
  with ltoMutator_variations [OF r, of cfg] show ?thesis by simp
qed
section \<open>Clone synthesis\<close>

text \<open>
  Claim C6. Clones are made on demand and are internal only. For a module with an
  \<^verbatim>\<open>lto\<close>: with no request flag set, no variation is created; with the global
  thin-default policy off, both \<^verbatim>\<open>FullDep\<close> and \<^verbatim>\<open>ThinDep\<close> set and neither Full nor
  Thin of its own, exactly the default variation and two clones are created, the default
  one being the module as it was (still neither Full nor Thin), the first clone Full and
  the second Thin; and every variation with a name, of any module, is kept out of the
  install set, hidden, and has its request flags cleared.
\<close>

theorem C6_clones_on_demand:
  assumes "lto m = Some r"
  shows "(\<not> FullDep (Properties r) \<and> \<not> ThinDep (Properties r) \<and> \<not> NoLtoDep (Properties r) \<longrightarrow>
            (\<exists>d. ltoMutator cfg (CcModule m) = Inr \<lparr>dependencyVariation = d, variations = []\<rparr>))
       \<and> (\<not> GlobalThinLTO cfg \<and> FullDep (Properties r) \<and> ThinDep (Properties r)
            \<and> \<not> FullLTO (Some r) \<and> \<not> ThinLTO (Some r) \<longrightarrow>
            (\<exists>full thin.
               ltoMutator cfg (CcModule m) =
                 Inr \<lparr>dependencyVariation = None,
                      variations = [('''', m), (''lto-full'', full), (''lto-thin'', thin)]\<rparr>
               \<and> \<not> FullLTO (lto m) \<and> \<not> ThinLTO (lto m)
               \<and> FullLTO (lto full) \<and> \<not> ThinLTO (lto full)
               \<and> ThinLTO (lto thin) \<and> \<not> FullLTO (lto thin)
               \<and> internalClone full \<and> internalClone thin))
       \<and> (\<forall>res n v. ltoMutator cfg (CcModule m) = Inr res \<and> (n, v) \<in> set (variations res)
              \<and> n \<noteq> '''' \<longrightarrow> internalClone v)"
proof (intro conjI impI allI)
  assume "\<not> FullDep (Properties r) \<and> \<not> ThinDep (Properties r) \<and> \<not> NoLtoDep (Properties r)"
  then have "variationNames (GlobalThinLTO cfg) r = ['''']"
    by (simp add: variationNames_cases)
  with ltoMutator_variations [OF assms, of cfg]
  show "\<exists>d. ltoMutator cfg (CcModule m) = Inr \<lparr>dependencyVariation = d, variations = []\<rparr>"
    by simp
next
  assume a: "\<not> GlobalThinLTO cfg \<and> FullDep (Properties r) \<and> ThinDep (Properties r)
            \<and> \<not> FullLTO (Some r) \<and> \<not> ThinLTO (Some r)"
  then have "variationNames (GlobalThinLTO cfg) r = ['''', ''lto-full'', ''lto-thin'']"
    by (simp add: variationNames_cases)
  with a assms show "\<exists>full thin.
               ltoMutator cfg (CcModule m) =
                 Inr \<lparr>dependencyVariation = None,
                      variations = [('''', m), (''lto-full'', full), (''lto-thin'', thin)]\<rparr>
               \<and> \<not> FullLTO (lto m) \<and> \<not> ThinLTO (lto m)
               \<and> FullLTO (lto full) \<and> \<not> ThinLTO (lto full)
               \<and> ThinLTO (lto thin) \<and> \<not> FullLTO (lto thin)
               \<and> internalClone full \<and> internalClone thin"
    by (simp add: ltoMutator_def CreateVariations_def ltoVariation_default ltoVariation_named
        internalClone_def FullLTO_Some ThinLTO_Some)
next
  fix res n v
  assume "ltoMutator cfg (CcModule m) = Inr res \<and> (n, v) \<in> set (variations res) \<and> n \<noteq> ''''"
  then show "internalClone v"
    using ltoMutator_clone_internal by blast
qed

theorem C6_clones_on_demand_witness:
  "ltoMutator env_thinlto_off (CcModule (ccModule (ltoOf None None None)))
     = Inr \<lparr>dependencyVariation = None, variations = []\<rparr>
   \<and> map fst (variations (projr (ltoMutator env_thinlto_off
         (CcModule (ccModule (withDeps True True False (ltoOf None None None)))))))
     = ['''', ''lto-full'', ''lto-thin'']
   \<and> list_all internalClone (tl (map snd (variations (projr (ltoMutator env_thinlto_off
         (CcModule (ccModule (withDeps True True False (ltoOf None None None)))))))))"
proof -
  have l0: "lto (ccModule (ltoOf None None None)) = Some (ltoOf None None None)"
    and l1: "lto (ccModule (withDeps True True False (ltoOf None None None)))
              = Some (withDeps True True False (ltoOf None None None))"
    by (simp_all add: ccModule_def)
  have g: "\<not> GlobalThinLTO env_thinlto_off"
    by (simp add: GlobalThinLTO_def env_thinlto_off_def)
  have p0: "\<not> FullDep (Properties (ltoOf None None None))
            \<and> \<not> ThinDep (Properties (ltoOf None None None))
            \<and> \<not> NoLtoDep (Properties (ltoOf None None None))"
    by (simp add: ltoOf_def)
  have p1: "\<not> GlobalThinLTO env_thinlto_off
            \<and> FullDep (Properties (withDeps True True False (ltoOf None None None)))
            \<and> ThinDep (Properties (withDeps True True False (ltoOf None None None)))
            \<and> \<not> FullLTO (Some (withDeps True True False (ltoOf None None None)))
            \<and> \<not> ThinLTO (Some (withDeps True True False (ltoOf None None None)))"
    using g by (simp add: withDeps_def ltoOf_def FullLTO_Some ThinLTO_Some)
  from C6_clones_on_demand [OF l0, of env_thinlto_off] p0
  obtain d where 0: "ltoMutator env_thinlto_off (CcModule (ccModule (ltoOf None None None)))
     = Inr \<lparr>dependencyVariation = d, variations = []\<rparr>"
    by blast
  have "ltoMutator env_thinlto_off (CcModule (ccModule (ltoOf None None None)))
     = Inr \<lparr>dependencyVariation = None, variations = []\<rparr>"
    using 0
    by (simp add: ltoMutator_def Let_def ccModule_def ltoOf_def variationNames_def FullLTO_def
        ThinLTO_def lto_Never_def GlobalThinLTO_def env_thinlto_off_def)
  moreover
  from C6_clones_on_demand [OF l1, of env_thinlto_off] p1
  obtain full thin where
    "ltoMutator env_thinlto_off (CcModule (ccModule (withDeps True True False (ltoOf None None None))))
       = Inr \<lparr>dependencyVariation = None,
              variations = [('''', ccModule (withDeps True True False (ltoOf None None None))),
                            (''lto-full'', full), (''lto-thin'', thin)]\<rparr>"
    and "internalClone full" "internalClone thin"
    by blast
  ultimately show ?thesis by simp
qed

section \<open>Running the bottom-up pass again\<close>

text \<open>
  Claim C7, as stated, fails. A module with \<^verbatim>\<open>FullDep\<close> set and no mode of its own gets
  the default variation and an \<^verbatim>\<open>lto-full\<close> clone. The default variation is the module
  itself, request flag included, so the pass run again on the two variations creates an
  \<^verbatim>\<open>lto-full\<close> clone of the default variation once more (and nothing for the clone).
\<close>

theorem C7_counterexample:
  "ltoMutator env_unset (CcModule requestedFull)
     = Inr \<lparr>dependencyVariation = None,
            variations = [('''', requestedFull),
                          (''lto-full'', projr (ltoVariation ''lto-full'' requestedFull))]\<rparr>
   \<and> ltoMutatorEach env_unset
        [('''', requestedFull), (''lto-full'', projr (ltoVariation ''lto-full'' requestedFull))]
     = Inr [('''', \<lparr>dependencyVariation = None,
                    variations = [('''', requestedFull),
                                  (''lto-full'', projr (ltoVariation ''lto-full'' requestedFull))]\<rparr>),
            (''lto-full'', \<lparr>dependencyVariation = Some ''lto-full'', variations = []\<rparr>)]"
  by (simp add: ltoMutator_def Let_def requestedFull_def ccModule_def withDeps_def ltoOf_def
      variationNames_def FullLTO_def ThinLTO_def lto_Never_def GlobalThinLTO_def env_unset_def
      CreateVariations_def ltoVariation_def SetDependencyVariation_def)

text \<open>
  Claim C7, amended. In one run of \<^verbatim>\<open>ltoMutator\<close> the variation names are distinct, so a
  module has at most one clone per mode. A clone is terminal: \<^verbatim>\<open>ltoMutator\<close> run on it
  creates no variation. The default variation is the module unchanged, so \<^verbatim>\<open>ltoMutator\<close>
  run on it gives the result of the first run again.
\<close>

theorem C7_rerun:
  assumes "ltoMutator cfg am = Inr res"
  shows "distinct (map fst (variations res))
       \<and> (\<forall>n v. (n, v) \<in> set (variations res) \<and> n \<noteq> '''' \<longrightarrow>
            (\<exists>d. ltoMutator cfg (CcModule v) = Inr \<lparr>dependencyVariation = d, variations = []\<rparr>))
       \<and> (\<forall>v. ('''', v) \<in> set (variations res) \<longrightarrow> ltoMutator cfg (CcModule v) = Inr res)"
proof (intro conjI allI impI)
  show "distinct (map fst (variations res))"
  proof (cases am)
    case OtherModule
    with assms show ?thesis by (auto simp: ltoMutator_def)
  next
    case (CcModule m)
    show ?thesis
    proof (cases "lto m")
      case None
      with CcModule assms show ?thesis by (auto simp: ltoMutator_def)
    next
      case (Some r)
      from ltoMutator_variations [OF Some, of cfg] CcModule assms
      have "map fst (variations res) = variationNames (GlobalThinLTO cfg) r
            \<or> map fst (variations res) = []"
        by (auto simp: comp_def split: if_splits)
      then show ?thesis using distinct_variationNames [of "GlobalThinLTO cfg" r] by auto
    qed
  qed
next
  fix n v
  assume "(n, v) \<in> set (variations res) \<and> n \<noteq> ''''"
  with assms have "internalClone v" using ltoMutator_clone_internal by blast
  then show "\<exists>d. ltoMutator cfg (CcModule v) = Inr \<lparr>dependencyVariation = d, variations = []\<rparr>"
    by (rule ltoMutator_internalClone)
next
  fix v
  assume v: "('''', v) \<in> set (variations res)"
  show "ltoMutator cfg (CcModule v) = Inr res"
  proof (cases am)
    case OtherModule
    with assms v show ?thesis by (auto simp: ltoMutator_def)
  next
    case (CcModule m)
    show ?thesis
    proof (cases "lto m")
      case None
      with CcModule assms v show ?thesis by (auto simp: ltoMutator_def)
    next
      case (Some r)
      from ltoMutator_variations [OF Some, of cfg] CcModule assms v
      have "v = (case ltoVariation '''' m of Inr v \<Rightarrow> v | Inl e \<Rightarrow> m)"
        using distinct_variationNames [of "GlobalThinLTO cfg" r]
        by (auto simp: variationNames_cases split: if_splits)
      then have "v = m" by (simp add: ltoVariation_default)
      with CcModule assms show ?thesis by simp
    qed
  qed
qed

theorem C7_rerun_witness:
  "distinct (map fst (variations (projr (ltoMutator env_unset (CcModule requestedFull)))))
   \<and> ltoMutator env_unset (CcModule (projr (ltoVariation ''lto-full'' requestedFull)))
       = Inr \<lparr>dependencyVariation = Some ''lto-full'', variations = []\<rparr>
   \<and> ltoMutator env_unset (CcModule requestedFull)
       = Inr \<lparr>dependencyVariation = None,
              variations = [('''', requestedFull),
                            (''lto-full'', projr (ltoVariation ''lto-full'' requestedFull))]\<rparr>"
proof -
  have 1: "ltoMutator env_unset (CcModule requestedFull)
       = Inr \<lparr>dependencyVariation = None,
              variations = [('''', requestedFull),
                            (''lto-full'', projr (ltoVariation ''lto-full'' requestedFull))]\<rparr>"
    by (simp add: ltoMutator_def Let_def requestedFull_def ccModule_def withDeps_def ltoOf_def
      variationNames_def FullLTO_def ThinLTO_def lto_Never_def GlobalThinLTO_def env_unset_def
      CreateVariations_def ltoVariation_def SetDependencyVariation_def)
  note r = C7_rerun [OF 1]
  from r have 3: "distinct (map fst (variations \<lparr>dependencyVariation = None,
              variations = [('''', requestedFull),
                            (''lto-full'', projr (ltoVariation ''lto-full'' requestedFull))]\<rparr>))"
    by (rule conjunct1)
  from r have "\<forall>n v. (n, v) \<in> set [('''', requestedFull),
                            (''lto-full'', projr (ltoVariation ''lto-full'' requestedFull))]
                  \<and> n \<noteq> '''' \<longrightarrow>
            (\<exists>d. ltoMutator env_unset (CcModule v)
                   = Inr \<lparr>dependencyVariation = d, variations = []\<rparr>)"
    by simp
  then have "\<exists>d. ltoMutator env_unset (CcModule (projr (ltoVariation ''lto-full'' requestedFull)))
          = Inr \<lparr>dependencyVariation = d, variations = []\<rparr>"
    by (elim allE [where x = "''lto-full''"] allE [where x = "projr (ltoVariation ''lto-full'' requestedFull)"])
       simp
  then obtain d where
    2: "ltoMutator env_unset (CcModule (projr (ltoVariation ''lto-full'' requestedFull)))
          = Inr \<lparr>dependencyVariation = d, variations = []\<rparr>"
    by blast
  have "ltoMutator env_unset (CcModule (projr (ltoVariation ''lto-full'' requestedFull)))
          = Inr \<lparr>dependencyVariation = Some ''lto-full'', variations = []\<rparr>"
    using 2
    by (simp add: ltoMutator_def Let_def requestedFull_def ccModule_def withDeps_def ltoOf_def
      variationNames_def FullLTO_def ThinLTO_def lto_Never_def GlobalThinLTO_def env_unset_def
      ltoVariation_def SetDependencyVariation_def)
  with 1 3 show ?thesis by simp
qed

section \<open>The \<^verbatim>\<open>DISABLE_LTO\<close> switch\<close>

lemma visitDep_unchanged:
  "lto_Never l \<or> \<not> (gt \<and> never) \<Longrightarrow> visitDep gt False False never l = Inr l"
  by (auto simp: visitDep_def)

text \<open>
  Claim C1, amended. With \<^verbatim>\<open>DISABLE_LTO\<close> on, \<^verbatim>\<open>begin\<close> sets \<^verbatim>\<open>NoLtoEnabled\<close>: Never
  holds and the default-thin policy is off. Full and Thin are left as they were, so the
  module is LTO exactly when it is Full or Thin, and otherwise \<^verbatim>\<open>flags\<close> returns its
  input. No \<^verbatim>\<open>lto-none\<close> clone is created for the module, and a walk from a module that
  is neither Full nor Thin sets no request flag on it.
\<close>

theorem C1_disable_lto:
  assumes "IsEnvTrue (Config ctx) ''DISABLE_LTO''"
  shows "\<exists>r'. lto_begin ctx (Some r) = Inr (Some r')
           \<and> lto_Never (Some r') \<and> \<not> DefaultThinLTO ctx (Some r')
           \<and> FullLTO (Some r') = FullLTO (Some r) \<and> ThinLTO (Some r') = ThinLTO (Some r)
           \<and> LTO ctx (Some r') = (ThinLTO (Some r) \<or> FullLTO (Some r))
           \<and> (\<not> ThinLTO (Some r) \<and> \<not> FullLTO (Some r) \<longrightarrow> flags pk ctx (Some r') fl = Inr fl)
           \<and> ''lto-none'' \<notin> set (variationNames gt r')
           \<and> (\<forall>never. visitDep gt False False never (Some r') = Inr (Some r'))"
proof -
  let ?r' = "r\<lparr>Properties := (Properties r)\<lparr>NoLtoEnabled := True\<rparr>\<rparr>"
  have b: "lto_begin ctx (Some r) = Inr (Some ?r')"
    using assms by (simp add: lto_begin_def)
  have n: "lto_Never (Some ?r')" by (simp add: lto_Never_Some)
  then have d: "\<not> DefaultThinLTO ctx (Some ?r')" by (simp add: DefaultThinLTO_def)
  have f: "FullLTO (Some ?r') = FullLTO (Some r)" and t: "ThinLTO (Some ?r') = ThinLTO (Some r)"
    by (simp_all add: FullLTO_Some ThinLTO_Some)
  have l: "LTO ctx (Some ?r') = (ThinLTO (Some r) \<or> FullLTO (Some r))"
    using d f t by (simp add: LTO_def)
  have fl: "\<not> ThinLTO (Some r) \<and> \<not> FullLTO (Some r) \<longrightarrow> flags pk ctx (Some ?r') fl = Inr fl"
    using l flags_without_LTO [of ctx "Some ?r'" pk fl] by simp
  have v: "''lto-none'' \<notin> set (variationNames gt ?r')"
    using n by (auto simp: variationNames_cases)
  have w: "\<forall>never. visitDep gt False False never (Some ?r') = Inr (Some ?r')"
    using n by (simp add: visitDep_unchanged)
  from b n d f t l fl v w show ?thesis by blast
qed

theorem C1_disable_lto_witness:
  "IsEnvTrue (Config (deviceContext env_disable_lto arm64)) ''DISABLE_LTO''
   \<and> lto_begin (deviceContext env_disable_lto arm64) (Some (ltoOf None None None))
       = Inr (Some (disabledLto None None None))
   \<and> \<not> LTO (deviceContext env_disable_lto arm64) (Some (disabledLto None None None))
   \<and> flags pkgs (deviceContext env_disable_lto arm64) (Some (disabledLto None None None)) noFlags
       = Inr noFlags"
proof -
  have e: "IsEnvTrue (Config (deviceContext env_disable_lto arm64)) ''DISABLE_LTO''"
    by (simp add: deviceContext_def env_disable_lto_def)
  have b: "lto_begin (deviceContext env_disable_lto arm64) (Some (ltoOf None None None))
       = Inr (Some (disabledLto None None None))"
    using e by (simp add: lto_begin_def disabledLto_def)
  have nt: "\<not> ThinLTO (Some (ltoOf None None None))" and nf: "\<not> FullLTO (Some (ltoOf None None None))"
    by (simp_all add: ThinLTO_Some FullLTO_Some ltoOf_def)
  from C1_disable_lto [OF e, of "ltoOf None None None" pkgs noFlags True] b nt nf
  have "\<not> LTO (deviceContext env_disable_lto arm64) (Some (disabledLto None None None))
        \<and> flags pkgs (deviceContext env_disable_lto arm64) (Some (disabledLto None None None)) noFlags
            = Inr noFlags"
    by auto
  with e b show ?thesis by simp
qed
text \<open>
  Claim C1, as stated, fails. With \<^verbatim>\<open>DISABLE_LTO\<close> on, a module with \<^verbatim>\<open>lto: {full: true}\<close>
  is still Full after \<^verbatim>\<open>begin\<close>: it is LTO and gets \<^verbatim>\<open>-flto\<close>. Its walk sets
  \<^verbatim>\<open>FullDep\<close> on a static dependency, for which \<^verbatim>\<open>ltoMutator\<close> then creates an
  \<^verbatim>\<open>lto-full\<close> clone.
\<close>

theorem C1_counterexample:
  "IsEnvTrue (Config (deviceContext env_disable_lto arm64)) ''DISABLE_LTO''
   \<and> lto_begin (deviceContext env_disable_lto arm64) (Some (ltoOf None (Some True) None))
       = Inr (Some (disabledLto None (Some True) None))
   \<and> LTO (deviceContext env_disable_lto arm64) (Some (disabledLto None (Some True) None))
   \<and> flags pkgs (deviceContext env_disable_lto arm64) (Some (disabledLto None (Some True) None))
        noFlags
       = Inr \<lparr>Local = \<lparr>CFlags = [''-flto''], AsFlags = [''-flto''],
                        LdFlags = [''-flto'', '''',
                                   ''-Wl,-plugin-opt,-import-instr-limit=40'',
                                   ''-Wl,-mllvm,-inline-threshold=600'',
                                   ''-Wl,-mllvm,-inlinehint-threshold=750'',
                                   ''-Wl,-mllvm,-unroll-threshold=600'']\<rparr>,
              Sdclang = False\<rparr>
   \<and> flagsAfter
        (snd (ltoDepsMutator env_disable_lto
               (chain (CcModule (ccModule (disabledLto None (Some True) None)))
                      (CcModule (ccModule (disabledLto None None None)))
                      OtherModule (libraryDependencyTag True) otherDependencyTag) 0)) 1
       = Some (True, False, False)
   \<and> map fst (variations (projr (ltoMutator env_disable_lto
         (CcModule (ccModule (withDeps True False False (disabledLto None None None)))))))
       = ['''', ''lto-full'']"
proof (intro conjI)
  show "IsEnvTrue (Config (deviceContext env_disable_lto arm64)) ''DISABLE_LTO''"
    by (simp add: deviceContext_def env_disable_lto_def)
  show "lto_begin (deviceContext env_disable_lto arm64) (Some (ltoOf None (Some True) None))
       = Inr (Some (disabledLto None (Some True) None))"
    by (simp add: lto_begin_def deviceContext_def env_disable_lto_def disabledLto_def)
  show "LTO (deviceContext env_disable_lto arm64) (Some (disabledLto None (Some True) None))"
    by (simp add: LTO_def FullLTO_Some disabledLto_def ltoOf_def)
  show "flags pkgs (deviceContext env_disable_lto arm64) (Some (disabledLto None (Some True) None))
        noFlags
       = Inr \<lparr>Local = \<lparr>CFlags = [''-flto''], AsFlags = [''-flto''],
                        LdFlags = [''-flto'', '''',
                                   ''-Wl,-plugin-opt,-import-instr-limit=40'',
                                   ''-Wl,-mllvm,-inline-threshold=600'',
                                   ''-Wl,-mllvm,-inlinehint-threshold=750'',
                                   ''-Wl,-mllvm,-unroll-threshold=600'']\<rparr>,
              Sdclang = False\<rparr>"
    by (simp add: flags_def inList_def LTO_def FullLTO_def ThinLTO_def DefaultThinLTO_def
        lto_Never_def ltoCFlag_def ltoLdFlag_def cacheFlags_def inlineLimitFlags_def
        disabledLto_def ltoOf_def deviceContext_def env_disable_lto_def noFlags_def pkgs_def
        arm64_def riscv64_def)
  show "flagsAfter
        (snd (ltoDepsMutator env_disable_lto
               (chain (CcModule (ccModule (disabledLto None (Some True) None)))
                      (CcModule (ccModule (disabledLto None None None)))
                      OtherModule (libraryDependencyTag True) otherDependencyTag) 0)) 1
       = Some (True, False, False)"
    by (simp add: flagsAfter_def depFlags_def ltoDepsMutator_def WalkDeps_def visit_def
        visitDep_def chain_def ccModule_def disabledLto_def ltoOf_def FullLTO_def ThinLTO_def
        lto_Never_def GlobalThinLTO_def env_disable_lto_def Let_def)
  show "map fst (variations (projr (ltoMutator env_disable_lto
         (CcModule (ccModule (withDeps True False False (disabledLto None None None)))))))
       = ['''', ''lto-full'']"
    by (simp add: ltoMutator_def Let_def ccModule_def withDeps_def disabledLto_def ltoOf_def
      variationNames_def FullLTO_def ThinLTO_def lto_Never_def GlobalThinLTO_def
      env_disable_lto_def CreateVariations_def ltoVariation_def)
qed

section \<open>Facts about the walk\<close>

lemma visit_result:
  assumes "visit gt full thin never dep tag g = Inr (g', r)"
  shows "r = staticDepTag tag" and "length g' = length g"
    and "d \<noteq> dep \<Longrightarrow> g' ! d = g ! d"
    and "\<not> staticDepTag tag \<Longrightarrow> g' = g"
  using assms
  by (auto simp: visit_def split: if_splits android_Module.splits sum.splits)

text \<open>What a visitor keeps, the whole walk keeps.\<close>

lemma walk_preserves:
  "walk deps n vis visited todo s = Inr s' \<Longrightarrow>
   (\<And>child tag s s' r. vis child tag s = Inr (s', r) \<Longrightarrow> P s \<Longrightarrow> P s') \<Longrightarrow>
   P s \<Longrightarrow> P s'"
proof (induction deps n vis visited todo s rule: walk.induct)
  case (1 deps n vis visited s)
  then show ?case by simp
next
  case (2 deps n vis visited tag child todo s)
  from "2.prems"(1) obtain s1 r where v: "vis child tag s = Inr (s1, r)"
    by (auto split: sum.splits)
  from "2.prems"(2) [OF v "2.prems"(3)] have p1: "P s1" .
  show ?case
  proof (cases "r \<and> child < n \<and> child \<notin> set visited")
    case True
    with "2.prems"(1) v have "walk deps n vis (child # visited) (deps child @ todo) s1 = Inr s'"
      by simp
    from "2.IH"(1) [OF v refl True this "2.prems"(2) p1] show ?thesis by simp
  next
    case False
    with "2.prems"(1) v have "walk deps n vis visited todo s1 = Inr s'"
      by auto
    from "2.IH"(2) [OF v refl False this "2.prems"(2) p1] show ?thesis by simp
  qed
qed

text \<open>
  A walk changes the state only at the children of edges that pass the test \<open>ok\<close>, and
  all of these lie in any set \<open>R\<close> that holds the \<open>ok\<close>-children of the edges still to
  visit and is closed under \<open>ok\<close>-edges.
\<close>

lemma walk_frame:
  "walk deps n vis visited todo s = Inr s' \<Longrightarrow>
   (\<And>child tag s s' r. vis child tag s = Inr (s', r) \<Longrightarrow>
        (r \<longrightarrow> ok tag) \<and> (\<forall>d. d \<noteq> child \<longrightarrow> s' ! d = s ! d) \<and> (\<not> ok tag \<longrightarrow> s' = s)) \<Longrightarrow>
   (\<And>p tag d. p \<in> R \<Longrightarrow> (tag, d) \<in> set (deps p) \<Longrightarrow> ok tag \<Longrightarrow> d \<in> R) \<Longrightarrow>
   (\<forall>(tag, c) \<in> set todo. ok tag \<longrightarrow> c \<in> R) \<Longrightarrow> d \<notin> R \<Longrightarrow> s' ! d = s ! d"
proof (induction deps n vis visited todo s rule: walk.induct)
  case (1 deps n vis visited s)
  then show ?case by simp
next
  case (2 deps n vis visited tag child todo s)
  note vis = "2.prems"(2) and closed = "2.prems"(3)
  from "2.prems"(1) obtain s1 r where v: "vis child tag s = Inr (s1, r)"
    by (auto split: sum.splits)
  from vis [OF v] have r: "r \<Longrightarrow> ok tag" and fr: "\<And>d. d \<noteq> child \<Longrightarrow> s1 ! d = s ! d"
    and same: "\<not> ok tag \<Longrightarrow> s1 = s" by auto
  have s1d: "s1 ! d = s ! d"
  proof (cases "ok tag")
    case True
    with "2.prems"(4) have "child \<in> R" by auto
    with "2.prems"(5) have "d \<noteq> child" by auto
    then show ?thesis by (rule fr)
  next
    case False
    then show ?thesis using same by simp
  qed
  show ?case
  proof (cases "r \<and> child < n \<and> child \<notin> set visited")
    case True
    with "2.prems"(1) v have w: "walk deps n vis (child # visited) (deps child @ todo) s1 = Inr s'"
      by simp
    from True r have "ok tag" by simp
    with "2.prems"(4) have cR: "child \<in> R" by auto
    have "\<forall>(tag, c) \<in> set (deps child @ todo). ok tag \<longrightarrow> c \<in> R"
      using "2.prems"(4) closed [OF cR] by auto
    from "2.IH"(1) [OF v refl True w vis closed this "2.prems"(5)] s1d show ?thesis by simp
  next
    case False
    with "2.prems"(1) v have w: "walk deps n vis visited todo s1 = Inr s'"
      by auto
    have "\<forall>(tag, c) \<in> set todo. ok tag \<longrightarrow> c \<in> R"
      using "2.prems"(4) by auto
    from "2.IH"(2) [OF v refl False w vis closed this "2.prems"(5)] s1d show ?thesis by simp
  qed
qed

lemma WalkDeps_visit_length:
  assumes "WalkDeps g m (visit gt full thin never) = Inr g'"
  shows "length g' = length g"
  using assms unfolding WalkDeps_def
  by (rule walk_preserves [where P = "\<lambda>s. length s = length g"]) (simp_all add: visit_result(2))

lemma WalkDeps_visit_frame:
  assumes "WalkDeps g m (visit gt full thin never) = Inr g'" and "\<not> reaches g m d"
  shows "g' ! d = g ! d"
proof -
  have "walk (\<lambda>i. directDeps (g ! i)) (length g) (visit gt full thin never) [m]
          (directDeps (g ! m)) g = Inr g'"
    using assms(1) by (simp add: WalkDeps_def)
  then show ?thesis
  proof (rule walk_frame [where ok = staticDepTag and R = "{d. reaches g m d}"])
    fix child tag s s' r
    assume v: "visit gt full thin never child tag s = Inr (s', r)"
    show "(r \<longrightarrow> staticDepTag tag) \<and> (\<forall>d. d \<noteq> child \<longrightarrow> s' ! d = s ! d)
               \<and> (\<not> staticDepTag tag \<longrightarrow> s' = s)"
      using visit_result(1) [OF v] visit_result(3) [OF v] visit_result(4) [OF v] by simp
  next
    fix p tag d
    assume "p \<in> {d. reaches g m d}" and "(tag, d) \<in> set (directDeps (g ! p))"
      and "staticDepTag tag"
    then show "d \<in> {d. reaches g m d}"
      by (auto intro: reaches.step)
  next
    show "\<forall>(tag, c) \<in> set (directDeps (g ! m)). staticDepTag tag \<longrightarrow> c \<in> {d. reaches g m d}"
      by (auto intro: reaches.direct)
  next
    show "d \<notin> {d. reaches g m d}" using assms(2) by simp
  qed
qed

lemma ltoDepsMutator_frame:
  assumes "snd (ltoDepsMutator cfg g m) = Inr g'"
  shows "length g' = length g" and "\<not> reaches g m d \<Longrightarrow> g' ! d = g ! d"
proof -
  show "length g' = length g"
    using assms WalkDeps_visit_length
    by (auto simp: ltoDepsMutator_def Let_def split: android_Module.splits)
  show "\<not> reaches g m d \<Longrightarrow> g' ! d = g ! d"
    using assms WalkDeps_visit_frame
    by (auto simp: ltoDepsMutator_def Let_def split: android_Module.splits)
qed

text \<open>The three conditional assignments on a dependency that has an \<^verbatim>\<open>lto\<close>, in one step.\<close>

lemma visitDep_Some:
  "visitDep gt full thin never (Some r) =
     Inr (Some (r\<lparr>Properties := (Properties r)
       \<lparr>FullDep := FullDep (Properties r) \<or> (full \<and> \<not> FullLTO (Some r)),
        ThinDep := ThinDep (Properties r) \<or> (\<not> gt \<and> thin \<and> \<not> ThinLTO (Some r)),
        NoLtoDep := NoLtoDep (Properties r) \<or> (gt \<and> never \<and> \<not> lto_Never (Some r))\<rparr>\<rparr>))"
proof (cases r)
  case (fields p)
  show ?thesis
    by (cases p) (auto simp: fields visitDep_def FullLTO_Some ThinLTO_Some lto_Never_Some)
qed

text \<open>The walk over the chain, when both edges pass the test and B and C have an \<^verbatim>\<open>lto\<close>.\<close>

lemma chain_walk:
  assumes "staticDepTag tagAB" and "staticDepTag tagBC"
    and "lto mb = Some rb" and "lto mc = Some rc"
  shows "\<exists>g'. WalkDeps (chain a (CcModule mb) (CcModule mc) tagAB tagBC) 0
                 (visit gt full thin never) = Inr g'
     \<and> depFlags g' 1 =
         (FullDep (Properties rb) \<or> (full \<and> \<not> FullLTO (Some rb)),
          ThinDep (Properties rb) \<or> (\<not> gt \<and> thin \<and> \<not> ThinLTO (Some rb)),
          NoLtoDep (Properties rb) \<or> (gt \<and> never \<and> \<not> lto_Never (Some rb)))
     \<and> depFlags g' 2 =
         (FullDep (Properties rc) \<or> (full \<and> \<not> FullLTO (Some rc)),
          ThinDep (Properties rc) \<or> (\<not> gt \<and> thin \<and> \<not> ThinLTO (Some rc)),
          NoLtoDep (Properties rc) \<or> (gt \<and> never \<and> \<not> lto_Never (Some rc)))"
  using assms
  by (simp add: WalkDeps_def chain_def visit_def visitDep_Some depFlags_def)

lemma chain_walk_other:
  assumes "\<not> staticDepTag tagAB"
  shows "WalkDeps (chain a b c tagAB tagBC) 0 (visit gt full thin never)
           = Inr (chain a b c tagAB tagBC)"
  using assms by (simp add: WalkDeps_def chain_def visit_def)

lemma ltoDepsMutator_CcModule:
  "logicModule (g ! m) = CcModule c \<Longrightarrow>
   ltoDepsMutator cfg g m =
     (if FullLTO (lto c) \<and> ThinLTO (lto c)
      then [PropertyError (name (g ! m)) ''LTO'' ''FullLTO and ThinLTO are mutually exclusive'']
      else [],
      WalkDeps g m (visit (GlobalThinLTO cfg) (FullLTO (lto c)) (ThinLTO (lto c))
                      (lto_Never (lto c))))"
  by (simp add: ltoDepsMutator_def Let_def PropertyErrorf_def)

lemma chain_nth:
  "chain a b c tagAB tagBC ! 0 = \<lparr>name = ''A'', logicModule = a, directDeps = [(tagAB, 1)]\<rparr>"
  by (simp add: chain_def)

lemma chain_no_path:
  assumes "\<not> staticDepTag tagAB"
  shows "\<not> reaches (chain a b c tagAB tagBC) 0 d"
proof
  assume "reaches (chain a b c tagAB tagBC) 0 d"
  then show False
    using assms by (induction rule: reaches.induct) (simp_all add: chain_nth)
qed
section \<open>Propagation along static edges\<close>

text \<open>
  Claim C4. Requests cross only edges that pass the visitor's edge test (a static library
  tag, \<^verbatim>\<open>objDepTag\<close> or \<^verbatim>\<open>reuseObjTag\<close>): a module that no path of such edges from \<open>m\<close>
  reaches is the same after \<^verbatim>\<open>ltoDepsMutator\<close> on \<open>m\<close>. In the chain A \<open>\<rightarrow>\<close> B \<open>\<rightarrow>\<close> C with both
  edges of such a kind, A Full, and B and C modules with an \<^verbatim>\<open>lto\<close> that are not Full
  themselves, the walk from A sets \<^verbatim>\<open>FullDep\<close> on B and on C. When the edge from A to B
  is of another kind, the walk from A leaves the whole chain as it was.
\<close>

theorem C4_propagation_crosses_static_edges_only:
  "(\<forall>g'. snd (ltoDepsMutator cfg g m) = Inr g' \<longrightarrow>
      length g' = length g \<and> (\<forall>d. \<not> reaches g m d \<longrightarrow> g' ! d = g ! d))
   \<and> (staticDepTag tagAB \<and> staticDepTag tagBC \<and> FullLTO (lto a)
       \<and> lto mb = Some rb \<and> \<not> FullLTO (Some rb) \<and> lto mc = Some rc \<and> \<not> FullLTO (Some rc) \<longrightarrow>
      (\<exists>g'. snd (ltoDepsMutator cfg
                   (chain (CcModule a) (CcModule mb) (CcModule mc) tagAB tagBC) 0) = Inr g'
         \<and> fst (depFlags g' 1) \<and> fst (depFlags g' 2)))
   \<and> (\<not> staticDepTag tagAB \<longrightarrow>
        snd (ltoDepsMutator cfg (chain (CcModule a) b c tagAB tagBC) 0)
          = Inr (chain (CcModule a) b c tagAB tagBC))"
proof (intro conjI allI impI)
  fix g'
  assume "snd (ltoDepsMutator cfg g m) = Inr g'"
  then show "length g' = length g" by (rule ltoDepsMutator_frame(1))
next
  fix g' d
  assume "snd (ltoDepsMutator cfg g m) = Inr g'" and "\<not> reaches g m d"
  then show "g' ! d = g ! d" by (rule ltoDepsMutator_frame(2))
next
  assume h: "staticDepTag tagAB \<and> staticDepTag tagBC \<and> FullLTO (lto a)
       \<and> lto mb = Some rb \<and> \<not> FullLTO (Some rb) \<and> lto mc = Some rc \<and> \<not> FullLTO (Some rc)"
  have "logicModule (chain (CcModule a) (CcModule mb) (CcModule mc) tagAB tagBC ! 0) = CcModule a"
    by (simp add: chain_nth)
  note m = ltoDepsMutator_CcModule [OF this, of cfg]
  from h chain_walk [of tagAB tagBC mb rb mc rc "CcModule a" "GlobalThinLTO cfg" "FullLTO (lto a)"
      "ThinLTO (lto a)" "lto_Never (lto a)"]
  show "\<exists>g'. snd (ltoDepsMutator cfg
                   (chain (CcModule a) (CcModule mb) (CcModule mc) tagAB tagBC) 0) = Inr g'
         \<and> fst (depFlags g' 1) \<and> fst (depFlags g' 2)"
    by (auto simp: m)
next
  assume h: "\<not> staticDepTag tagAB"
  have "logicModule (chain (CcModule a) b c tagAB tagBC ! 0) = CcModule a"
    by (simp add: chain_nth)
  note m = ltoDepsMutator_CcModule [OF this, of cfg]
  from chain_walk_other [OF h]
  show "snd (ltoDepsMutator cfg (chain (CcModule a) b c tagAB tagBC) 0)
          = Inr (chain (CcModule a) b c tagAB tagBC)"
    by (simp add: m)
qed

theorem C4_propagation_crosses_static_edges_only_witness:
  "flagsAfter (snd (ltoDepsMutator env_unset
      (chain (CcModule (ccModule (ltoOf None (Some True) None)))
             (CcModule (ccModule (ltoOf None None None)))
             (CcModule (ccModule (ltoOf None None None)))
             (libraryDependencyTag True) (libraryDependencyTag True)) 0)) 1
     = Some (True, False, False)
   \<and> flagsAfter (snd (ltoDepsMutator env_unset
      (chain (CcModule (ccModule (ltoOf None (Some True) None)))
             (CcModule (ccModule (ltoOf None None None)))
             (CcModule (ccModule (ltoOf None None None)))
             (libraryDependencyTag True) (libraryDependencyTag True)) 0)) 2
     = Some (True, False, False)
   \<and> \<not> reaches (chain (CcModule (ccModule (ltoOf None (Some True) None)))
             (CcModule (ccModule (ltoOf None None None)))
             (CcModule (ccModule (ltoOf None None None)))
             otherDependencyTag (libraryDependencyTag True)) 0 2
   \<and> snd (ltoDepsMutator env_unset
      (chain (CcModule (ccModule (ltoOf None (Some True) None)))
             (CcModule (ccModule (ltoOf None None None)))
             (CcModule (ccModule (ltoOf None None None)))
             otherDependencyTag (libraryDependencyTag True)) 0)
     = Inr (chain (CcModule (ccModule (ltoOf None (Some True) None)))
             (CcModule (ccModule (ltoOf None None None)))
             (CcModule (ccModule (ltoOf None None None)))
             otherDependencyTag (libraryDependencyTag True))"
proof -
  let ?a = "ccModule (ltoOf None (Some True) None)" and ?b = "ccModule (ltoOf None None None)"
  note c4 = C4_propagation_crosses_static_edges_only
    [of env_unset "chain (CcModule ?a) (CcModule ?b) (CcModule ?b) otherDependencyTag
                     (libraryDependencyTag True)" 0
        "libraryDependencyTag True" "libraryDependencyTag True" ?a ?b "ltoOf None None None"
        ?b "ltoOf None None None" "CcModule ?b" "CcModule ?b"]
  have h: "staticDepTag (libraryDependencyTag True) \<and> staticDepTag (libraryDependencyTag True)
       \<and> FullLTO (lto ?a) \<and> lto ?b = Some (ltoOf None None None)
       \<and> \<not> FullLTO (Some (ltoOf None None None)) \<and> lto ?b = Some (ltoOf None None None)
       \<and> \<not> FullLTO (Some (ltoOf None None None))"
    by (simp add: ccModule_def ltoOf_def FullLTO_Some)
  from c4 h obtain g' where
    g': "snd (ltoDepsMutator env_unset
           (chain (CcModule ?a) (CcModule ?b) (CcModule ?b)
              (libraryDependencyTag True) (libraryDependencyTag True)) 0) = Inr g'"
    and "fst (depFlags g' 1)" "fst (depFlags g' 2)"
    by blast
  have 1: "flagsAfter (snd (ltoDepsMutator env_unset
      (chain (CcModule ?a) (CcModule ?b) (CcModule ?b)
             (libraryDependencyTag True) (libraryDependencyTag True)) 0)) 1
     = Some (True, False, False)"
    and 2: "flagsAfter (snd (ltoDepsMutator env_unset
      (chain (CcModule ?a) (CcModule ?b) (CcModule ?b)
             (libraryDependencyTag True) (libraryDependencyTag True)) 0)) 2
     = Some (True, False, False)"
    by (simp_all add: flagsAfter_def depFlags_def ltoDepsMutator_def WalkDeps_def visit_def
        visitDep_def chain_def ccModule_def ltoOf_def FullLTO_def ThinLTO_def
        lto_Never_def GlobalThinLTO_def env_unset_def Let_def)
  have 3: "\<not> reaches (chain (CcModule ?a) (CcModule ?b) (CcModule ?b)
             otherDependencyTag (libraryDependencyTag True)) 0 2"
    by (rule chain_no_path) simp
  have "\<not> staticDepTag otherDependencyTag \<longrightarrow>
        snd (ltoDepsMutator env_unset
          (chain (CcModule ?a) (CcModule ?b) (CcModule ?b)
             otherDependencyTag (libraryDependencyTag True)) 0)
        = Inr (chain (CcModule ?a) (CcModule ?b) (CcModule ?b)
             otherDependencyTag (libraryDependencyTag True))"
    using C4_propagation_crosses_static_edges_only
      [of env_unset "[]" 0 otherDependencyTag "libraryDependencyTag True" ?a ?b
          "ltoOf None None None" ?b "ltoOf None None None" "CcModule ?b" "CcModule ?b"]
    by (elim conjE)
  then have 4: "snd (ltoDepsMutator env_unset
      (chain (CcModule ?a) (CcModule ?b) (CcModule ?b)
             otherDependencyTag (libraryDependencyTag True)) 0)
     = Inr (chain (CcModule ?a) (CcModule ?b) (CcModule ?b)
             otherDependencyTag (libraryDependencyTag True))"
    by simp
  from 1 2 3 4 show ?thesis by simp
qed

section \<open>The walk below a dependency that already has the mode\<close>

text \<open>
  Claim C2, as stated, fails. In the chain A \<open>\<rightarrow>\<close> D \<open>\<rightarrow>\<close> E of static library edges with A
  and D both \<^verbatim>\<open>lto: {full: true}\<close> and E without a mode, the walk from A alone leaves D
  without \<^verbatim>\<open>FullDep\<close> and goes on below D: E gets \<^verbatim>\<open>FullDep\<close>.
\<close>

theorem C2_counterexample:
  "FullLTO (Some (ltoOf None (Some True) None))
   \<and> flagsAfter (snd (ltoDepsMutator env_unset
      (chain (CcModule (ccModule (ltoOf None (Some True) None)))
             (CcModule (ccModule (ltoOf None (Some True) None)))
             (CcModule (ccModule (ltoOf None None None)))
             (libraryDependencyTag True) (libraryDependencyTag True)) 0)) 1
     = Some (False, False, False)
   \<and> flagsAfter (snd (ltoDepsMutator env_unset
      (chain (CcModule (ccModule (ltoOf None (Some True) None)))
             (CcModule (ccModule (ltoOf None (Some True) None)))
             (CcModule (ccModule (ltoOf None None None)))
             (libraryDependencyTag True) (libraryDependencyTag True)) 0)) 2
     = Some (True, False, False)"
  by (simp add: flagsAfter_def depFlags_def ltoDepsMutator_def WalkDeps_def visit_def
        visitDep_def chain_def ccModule_def ltoOf_def FullLTO_def ThinLTO_def
        lto_Never_def GlobalThinLTO_def env_unset_def Let_def)

text \<open>
  Claim C2, amended. The visitor's answer depends on the tag of the edge only: it goes on
  below every dependency reached over an edge that passes the edge test, whatever the
  mode of that dependency, and only leaves the request flag of a dependency that already
  has the mode alone. So in a chain A \<open>\<rightarrow>\<close> D \<open>\<rightarrow>\<close> E of such edges, what the walk from A
  sets on E depends on A and E only, not on D: E gets \<^verbatim>\<open>FullDep\<close> when A is Full and E is
  not, \<^verbatim>\<open>ThinDep\<close> when the global thin default is off, A is Thin and E is not, and
  \<^verbatim>\<open>NoLtoDep\<close> when the global thin default is on, Never holds for A and not for E.
\<close>

theorem C2_walk_goes_on_below:
  "(\<forall>g' r. visit gt full thin never dep tag g = Inr (g', r) \<longrightarrow> r = staticDepTag tag)
   \<and> (staticDepTag tagAD \<and> staticDepTag tagDE \<and> lto md = Some rd \<and> lto me = Some re \<longrightarrow>
      (\<exists>g'. snd (ltoDepsMutator cfg
                   (chain (CcModule a) (CcModule md) (CcModule me) tagAD tagDE) 0) = Inr g'
         \<and> depFlags g' 1 =
             (FullDep (Properties rd) \<or> (FullLTO (lto a) \<and> \<not> FullLTO (Some rd)),
              ThinDep (Properties rd)
                \<or> (\<not> GlobalThinLTO cfg \<and> ThinLTO (lto a) \<and> \<not> ThinLTO (Some rd)),
              NoLtoDep (Properties rd)
                \<or> (GlobalThinLTO cfg \<and> lto_Never (lto a) \<and> \<not> lto_Never (Some rd)))
         \<and> depFlags g' 2 =
             (FullDep (Properties re) \<or> (FullLTO (lto a) \<and> \<not> FullLTO (Some re)),
              ThinDep (Properties re)
                \<or> (\<not> GlobalThinLTO cfg \<and> ThinLTO (lto a) \<and> \<not> ThinLTO (Some re)),
              NoLtoDep (Properties re)
                \<or> (GlobalThinLTO cfg \<and> lto_Never (lto a) \<and> \<not> lto_Never (Some re)))))"
proof (intro conjI allI impI)
  fix g' r
  assume "visit gt full thin never dep tag g = Inr (g', r)"
  then show "r = staticDepTag tag" by (rule visit_result(1))
next
  assume h: "staticDepTag tagAD \<and> staticDepTag tagDE \<and> lto md = Some rd \<and> lto me = Some re"
  have "logicModule (chain (CcModule a) (CcModule md) (CcModule me) tagAD tagDE ! 0) = CcModule a"
    by (simp add: chain_nth)
  note m = ltoDepsMutator_CcModule [OF this, of cfg]
  from h chain_walk [of tagAD tagDE md rd me re "CcModule a" "GlobalThinLTO cfg" "FullLTO (lto a)"
      "ThinLTO (lto a)" "lto_Never (lto a)"]
  show "\<exists>g'. snd (ltoDepsMutator cfg
                   (chain (CcModule a) (CcModule md) (CcModule me) tagAD tagDE) 0) = Inr g'
         \<and> depFlags g' 1 =
             (FullDep (Properties rd) \<or> (FullLTO (lto a) \<and> \<not> FullLTO (Some rd)),
              ThinDep (Properties rd)
                \<or> (\<not> GlobalThinLTO cfg \<and> ThinLTO (lto a) \<and> \<not> ThinLTO (Some rd)),
              NoLtoDep (Properties rd)
                \<or> (GlobalThinLTO cfg \<and> lto_Never (lto a) \<and> \<not> lto_Never (Some rd)))
         \<and> depFlags g' 2 =
             (FullDep (Properties re) \<or> (FullLTO (lto a) \<and> \<not> FullLTO (Some re)),
              ThinDep (Properties re)
                \<or> (\<not> GlobalThinLTO cfg \<and> ThinLTO (lto a) \<and> \<not> ThinLTO (Some re)),
              NoLtoDep (Properties re)
                \<or> (GlobalThinLTO cfg \<and> lto_Never (lto a) \<and> \<not> lto_Never (Some re)))"
    by (simp add: m)
qed

theorem C2_walk_goes_on_below_witness:
  "visit True True False False 1 (libraryDependencyTag True)
      (chain (CcModule (ccModule (ltoOf None (Some True) None)))
             (CcModule (ccModule (ltoOf None (Some True) None)))
             (CcModule (ccModule (ltoOf None None None)))
             (libraryDependencyTag True) (libraryDependencyTag True))
     = Inr (chain (CcModule (ccModule (ltoOf None (Some True) None)))
             (CcModule (ccModule (ltoOf None (Some True) None)))
             (CcModule (ccModule (ltoOf None None None)))
             (libraryDependencyTag True) (libraryDependencyTag True), True)
   \<and> flagsAfter (snd (ltoDepsMutator env_unset
      (chain (CcModule (ccModule (ltoOf None (Some True) None)))
             (CcModule (ccModule (ltoOf None (Some True) None)))
             (CcModule (ccModule (ltoOf None None None)))
             (libraryDependencyTag True) (libraryDependencyTag True)) 0)) 2
     = Some (True, False, False)"
proof -
  let ?a = "ccModule (ltoOf None (Some True) None)" and ?e = "ccModule (ltoOf None None None)"
  let ?g = "chain (CcModule ?a) (CcModule ?a) (CcModule ?e)
              (libraryDependencyTag True) (libraryDependencyTag True)"
  note c2 = C2_walk_goes_on_below
    [of True True False False 1 "libraryDependencyTag True" ?g
        "libraryDependencyTag True" "libraryDependencyTag True" ?a "ltoOf None (Some True) None"
        ?e "ltoOf None None None" env_unset ?a]
  have v: "\<exists>g'. visit True True False False 1 (libraryDependencyTag True) ?g = Inr (g', True)"
    using c2
    by (auto simp: visit_def visitDep_def chain_def ccModule_def ltoOf_def FullLTO_def
        ThinLTO_def lto_Never_def)
  have 1: "visit True True False False 1 (libraryDependencyTag True) ?g = Inr (?g, True)"
    by (simp add: visit_def visitDep_def chain_def ccModule_def ltoOf_def FullLTO_def
        ThinLTO_def lto_Never_def)
  have h: "staticDepTag (libraryDependencyTag True) \<and> staticDepTag (libraryDependencyTag True)
           \<and> lto ?a = Some (ltoOf None (Some True) None) \<and> lto ?e = Some (ltoOf None None None)"
    by (simp add: ccModule_def)
  from c2 h obtain g' where
    "snd (ltoDepsMutator env_unset ?g 0) = Inr g'"
    and "depFlags g' 2 =
             (FullDep (Properties (ltoOf None None None))
                \<or> (FullLTO (lto ?a) \<and> \<not> FullLTO (Some (ltoOf None None None))),
              ThinDep (Properties (ltoOf None None None))
                \<or> (\<not> GlobalThinLTO env_unset \<and> ThinLTO (lto ?a)
                    \<and> \<not> ThinLTO (Some (ltoOf None None None))),
              NoLtoDep (Properties (ltoOf None None None))
                \<or> (GlobalThinLTO env_unset \<and> lto_Never (lto ?a)
                    \<and> \<not> lto_Never (Some (ltoOf None None None))))"
    by blast
  then have 2: "flagsAfter (snd (ltoDepsMutator env_unset ?g 0)) 2 = Some (True, False, False)"
    by (simp add: flagsAfter_def ccModule_def ltoOf_def FullLTO_Some ThinLTO_Some lto_Never_Some
        GlobalThinLTO_def env_unset_def)
  from 1 2 show ?thesis by simp
qed

section \<open>The configuration error\<close>

text \<open>
  Claim C3, as stated, fails. With the global thin default off, a module A with both
  \<^verbatim>\<open>lto: {full: true}\<close> and \<^verbatim>\<open>lto: {thin: true}\<close> and a static dependency B: the error
  naming A is reported and the walk still runs, setting \<^verbatim>\<open>FullDep\<close> and \<^verbatim>\<open>ThinDep\<close> on B
  (and on C below it).
\<close>

theorem C3_counterexample:
  "fst (ltoDepsMutator env_thinlto_off
      (chain (CcModule (ccModule (ltoOf None (Some True) (Some True))))
             (CcModule (ccModule (ltoOf None None None)))
             (CcModule (ccModule (ltoOf None None None)))
             (libraryDependencyTag True) (libraryDependencyTag True)) 0)
     = [PropertyError ''A'' ''LTO'' ''FullLTO and ThinLTO are mutually exclusive'']
   \<and> flagsAfter (snd (ltoDepsMutator env_thinlto_off
      (chain (CcModule (ccModule (ltoOf None (Some True) (Some True))))
             (CcModule (ccModule (ltoOf None None None)))
             (CcModule (ccModule (ltoOf None None None)))
             (libraryDependencyTag True) (libraryDependencyTag True)) 0)) 1
     = Some (True, True, False)
   \<and> flagsAfter (snd (ltoDepsMutator env_thinlto_off
      (chain (CcModule (ccModule (ltoOf None (Some True) (Some True))))
             (CcModule (ccModule (ltoOf None None None)))
             (CcModule (ccModule (ltoOf None None None)))
             (libraryDependencyTag True) (libraryDependencyTag True)) 0)) 2
     = Some (True, True, False)"
  by (simp add: flagsAfter_def depFlags_def ltoDepsMutator_def WalkDeps_def visit_def
        visitDep_def chain_def ccModule_def ltoOf_def FullLTO_def ThinLTO_def PropertyErrorf_def
        lto_Never_def GlobalThinLTO_def env_thinlto_off_def Let_def)

text \<open>
  Claim C3, amended. \<^verbatim>\<open>ltoDepsMutator\<close> on a module reports one error, naming that
  module, exactly when \<^verbatim>\<open>FullLTO()\<close> and \<^verbatim>\<open>ThinLTO()\<close> both hold for it; while its
  \<^verbatim>\<open>FullEnabled\<close> and \<^verbatim>\<open>ThinEnabled\<close> are unset, that is exactly when both \<^verbatim>\<open>lto.full\<close>
  and \<^verbatim>\<open>lto.thin\<close> are true. The error does not end the pass for the module: the walk
  runs as it does without the error, so the dependencies reached over static edges get
  their request flags, and the modules no such path reaches are untouched.
\<close>

theorem C3_error_and_walk:
  assumes "logicModule (g ! m) = CcModule c"
  shows "fst (ltoDepsMutator cfg g m) =
           (if FullLTO (lto c) \<and> ThinLTO (lto c)
            then [PropertyError (name (g ! m)) ''LTO'' ''FullLTO and ThinLTO are mutually exclusive'']
            else [])
       \<and> (\<forall>r. lto c = Some r \<and> \<not> FullEnabled (Properties r) \<and> \<not> ThinEnabled (Properties r) \<longrightarrow>
            (FullLTO (lto c) \<and> ThinLTO (lto c))
              = (Full (Lto (Properties r)) = Some True \<and> Thin (Lto (Properties r)) = Some True))
       \<and> snd (ltoDepsMutator cfg g m) =
           WalkDeps g m (visit (GlobalThinLTO cfg) (FullLTO (lto c)) (ThinLTO (lto c))
                           (lto_Never (lto c)))
       \<and> (\<forall>g' d. snd (ltoDepsMutator cfg g m) = Inr g' \<and> \<not> reaches g m d \<longrightarrow> g' ! d = g ! d)"
proof (intro conjI allI impI)
  show "fst (ltoDepsMutator cfg g m) =
           (if FullLTO (lto c) \<and> ThinLTO (lto c)
            then [PropertyError (name (g ! m)) ''LTO'' ''FullLTO and ThinLTO are mutually exclusive'']
            else [])"
    by (simp add: ltoDepsMutator_CcModule [OF assms])
  show "snd (ltoDepsMutator cfg g m) =
           WalkDeps g m (visit (GlobalThinLTO cfg) (FullLTO (lto c)) (ThinLTO (lto c))
                           (lto_Never (lto c)))"
    by (simp add: ltoDepsMutator_CcModule [OF assms])
next
  fix r
  assume "lto c = Some r \<and> \<not> FullEnabled (Properties r) \<and> \<not> ThinEnabled (Properties r)"
  then show "(FullLTO (lto c) \<and> ThinLTO (lto c))
              = (Full (Lto (Properties r)) = Some True \<and> Thin (Lto (Properties r)) = Some True)"
    by (simp add: FullLTO_Some ThinLTO_Some)
next
  fix g' d
  assume "snd (ltoDepsMutator cfg g m) = Inr g' \<and> \<not> reaches g m d"
  then show "g' ! d = g ! d" using ltoDepsMutator_frame(2) by blast
qed

theorem C3_error_and_walk_witness:
  "fst (ltoDepsMutator env_thinlto_off
      (chain (CcModule (ccModule (ltoOf None (Some True) (Some True))))
             (CcModule (ccModule (ltoOf None None None)))
             (CcModule (ccModule (ltoOf None None None)))
             (libraryDependencyTag True) otherDependencyTag) 0)
     = [PropertyError ''A'' ''LTO'' ''FullLTO and ThinLTO are mutually exclusive'']
   \<and> flagsAfter (snd (ltoDepsMutator env_thinlto_off
      (chain (CcModule (ccModule (ltoOf None (Some True) (Some True))))
             (CcModule (ccModule (ltoOf None None None)))
             (CcModule (ccModule (ltoOf None None None)))
             (libraryDependencyTag True) otherDependencyTag) 0)) 1
     = Some (True, True, False)"
proof -
  let ?a = "ccModule (ltoOf None (Some True) (Some True))" and ?b = "ccModule (ltoOf None None None)"
  let ?g = "chain (CcModule ?a) (CcModule ?b) (CcModule ?b) (libraryDependencyTag True)
              otherDependencyTag"
  have l: "logicModule (?g ! 0) = CcModule ?a" by (simp add: chain_nth)
  note c3 = C3_error_and_walk [OF l, of env_thinlto_off]
  have ft: "FullLTO (lto ?a) \<and> ThinLTO (lto ?a)"
    by (simp add: ccModule_def ltoOf_def FullLTO_Some ThinLTO_Some)
  from c3 ft have 1: "fst (ltoDepsMutator env_thinlto_off ?g 0)
     = [PropertyError ''A'' ''LTO'' ''FullLTO and ThinLTO are mutually exclusive'']"
    by (simp add: chain_nth)
  from c3 have "snd (ltoDepsMutator env_thinlto_off ?g 0) =
           WalkDeps ?g 0 (visit (GlobalThinLTO env_thinlto_off) (FullLTO (lto ?a)) (ThinLTO (lto ?a))
                           (lto_Never (lto ?a)))"
    by simp
  then have 2: "flagsAfter (snd (ltoDepsMutator env_thinlto_off ?g 0)) 1 = Some (True, True, False)"
    by (simp add: flagsAfter_def depFlags_def WalkDeps_def visit_def
        visitDep_def chain_def ccModule_def ltoOf_def FullLTO_def ThinLTO_def
        lto_Never_def GlobalThinLTO_def env_thinlto_off_def)
  from 1 2 show ?thesis by simp
qed

section \<open>Selection of the dependency variation\<close>



end
